theory Spec2Isabelle
  imports Complex_Main "HOL-Library.Multiset" "HOL-Library.Sublist"
begin

section \<open>Strings and the regular expressions of the bead classifier\<close>

text \<open>
  A Python \<open>str\<close> is modelled as the list of its code points; the model covers the
  code points below 256, which is what \<^typ>\<open>char\<close> holds.

  \<open>set_vdw.alter_vdw\<close> in \<open>mt_nice.py\<close> compiles three patterns that use only literals,
  bracket expressions, concatenation, alternation and grouping.  \<open>pattern.match\<close> tries
  the pattern at the start of the string only, and is truthy when some prefix matches.
\<close>

definition py_digit :: "char \<Rightarrow> bool" where
  \<comment> \<open>\<open>\d\<close> on \<open>str\<close>: the decimal digits; below 256 these are \<open>0\<close> to \<open>9\<close>.\<close>
  "py_digit c = (let n = (of_char c :: nat) in 48 \<le> n \<and> n \<le> 57)"

definition py_word :: "char \<Rightarrow> bool" where
  \<comment> \<open>\<open>\w\<close> on \<open>str\<close>: alphanumeric code points and the underscore.  Below 128 these
     are the letters, the digits and \<open>_\<close>; from 128 to 255 they are the letters and
     numeric signs of Latin-1.\<close>
  "py_word c = (let n = (of_char c :: nat) in
     (48 \<le> n \<and> n \<le> 57) \<or> (65 \<le> n \<and> n \<le> 90) \<or> n = 95 \<or> (97 \<le> n \<and> n \<le> 122) \<or>
     n = 170 \<or> n = 178 \<or> n = 179 \<or> n = 181 \<or> n = 185 \<or> n = 186 \<or>
     (188 \<le> n \<and> n \<le> 190) \<or> (192 \<le> n \<and> n \<le> 214) \<or> (216 \<le> n \<and> n \<le> 246) \<or>
     (248 \<le> n \<and> n \<le> 255))"

datatype bracket_item = Chars string | Word_class | Digit_class

fun in_item :: "bracket_item \<Rightarrow> char \<Rightarrow> bool" where
  "in_item (Chars cs) c = (c \<in> set cs)"
| "in_item Word_class c = py_word c"
| "in_item Digit_class c = py_digit c"

datatype regex =
    Lit char
  | Bracket "bracket_item list"
  | Seq regex regex
  | Alt regex regex

text \<open>
  \<open>rmatch r s\<close> lists, in the order a backtracking matcher tries them, the rests of \<open>s\<close>
  that remain after \<open>r\<close> has consumed a prefix.
\<close>

fun rmatch :: "regex \<Rightarrow> string \<Rightarrow> string list" where
  "rmatch (Lit c) s = (case s of [] \<Rightarrow> [] | x # xs \<Rightarrow> if x = c then [xs] else [])"
| "rmatch (Bracket items) s =
     (case s of [] \<Rightarrow> [] | x # xs \<Rightarrow> if list_ex (\<lambda>i. in_item i x) items then [xs] else [])"
| "rmatch (Seq a b) s = concat (map (rmatch b) (rmatch a s))"
| "rmatch (Alt a b) s = rmatch a s @ rmatch b s"

definition re_match :: "regex \<Rightarrow> string \<Rightarrow> bool" where
  \<comment> \<open>truthiness of \<open>pattern.match(elem)\<close>\<close>
  "re_match r s = (rmatch r s \<noteq> [])"

section \<open>The bead classifier: \<open>set_vdw.alter_vdw\<close>\<close>

definition bead_core :: regex where
  \<comment> \<open>\<open>[QPNCX][\w\d]|W\<close>\<close>
  "bead_core = Alt (Seq (Bracket [Chars ''QPNCX'']) (Bracket [Word_class, Digit_class]))
                   (Lit (CHR ''W''))"

definition regular_pattern :: regex where
  "regular_pattern = bead_core"

definition small_pattern :: regex where
  \<comment> \<open>\<open>S([QPNCX][\w\d]|W)\<close>\<close>
  "small_pattern = Seq (Lit (CHR ''S'')) bead_core"

definition tiny_pattern :: regex where
  \<comment> \<open>\<open>T([QPNCX][\w\d]|W)\<close>\<close>
  "tiny_pattern = Seq (Lit (CHR ''T'')) bead_core"

definition vdw_patterns :: "(regex \<times> real) list" where
  \<comment> \<open>the dict literal, in insertion order\<close>
  "vdw_patterns = [(regular_pattern, 2.35), (small_pattern, 2.00), (tiny_pattern, 1.65)]"

fun first_match :: "(regex \<times> real) list \<Rightarrow> string \<Rightarrow> real \<Rightarrow> real" where
  \<comment> \<open>the \<open>for pattern, radius in vdw_patterns.items()\<close> loop, then \<open>return vdw\<close>\<close>
  "first_match [] elem vdw = vdw"
| "first_match ((pattern, radius) # rest) elem vdw =
     (if re_match pattern elem then radius else first_match rest elem vdw)"

definition alter_vdw :: "string \<Rightarrow> real \<Rightarrow> real" where
  "alter_vdw elem vdw = first_match vdw_patterns elem vdw"

section \<open>Python values used by the plugin\<close>

text \<open>
  A \<open>dict\<close> whose iteration order matters is an association list in insertion order:
  assigning to a key that is present replaces the value in place, assigning to a new key
  appends.
\<close>

fun dict_set :: "('k \<times> 'v) list \<Rightarrow> 'k \<Rightarrow> 'v \<Rightarrow> ('k \<times> 'v) list" where
  "dict_set [] k v = [(k, v)]"
| "dict_set ((k', v') # d) k v =
     (if k' = k then (k, v) # d else (k', v') # dict_set d k v)"

definition digit_char :: "nat \<Rightarrow> char" where
  "digit_char n = ''0123456789'' ! (n mod 10)"

function show_nat :: "nat \<Rightarrow> string" where
  \<comment> \<open>the decimal text of a non-negative \<open>int\<close>, as an f-string prints it\<close>
  "show_nat n = (if n < 10 then [digit_char n] else show_nat (n div 10) @ [digit_char n])"
  by pat_completeness auto
termination
  by (relation "measure id") auto

declare show_nat.simps [simp del]

datatype py_error = IndexError | NameError string | KeyError string

fun bind_err :: "py_error + 'a \<Rightarrow> ('a \<Rightarrow> py_error + 'b) \<Rightarrow> py_error + 'b" where
  \<comment> \<open>sequencing: an exception raised by the first statement skips the rest\<close>
  "bind_err (Inl e) f = Inl e"
| "bind_err (Inr x) f = f x"

section \<open>The host session\<close>

text \<open>
  The plugin drives the host through \<open>pymol.cmd\<close> and keeps its own data in
  \<open>pymol.stored\<close>.  The session state holds
  \<^item> the atoms, with the attributes that the expressions of this plugin read and write,
    and the host's classification of each atom, which the selection keywords
    \<open>polymer.protein\<close>, \<open>polymer.nucleic\<close> and \<open>organic\<close> read;
  \<^item> the host's colour table: a colour's index is its position, \<open>set_color\<close> on a known
    name replaces the value and keeps the index, on a new name it takes the next index,
    and \<open>get_color_index\<close> gives the index, or -1;
  \<^item> the requests made to the host, in order.  The host's own effect of \<open>select\<close>,
    \<open>delete\<close>, \<open>deselect\<close>, \<open>sync\<close>, \<open>set\<close>, \<open>recolor\<close>, \<open>color\<close>, \<open>show_as\<close> and
    \<open>hide\<close> is not modelled further: the request is what the plugin does;
  \<^item> what was printed;
  \<^item> \<open>stored.mt_colors\<close> and \<open>stored.tmp_dict\<close>;
  \<^item> the outcomes of \<open>random\<close>: \<open>draws\<close> is the sequence of numbers the generator
    will give, \<open>drawn\<close> how many were taken.
  \<open>stored.mt_selectors\<close> and \<open>stored.mt_nice_set\<close> are assigned once by
  \<open>nice_settings\<close> from literals and never changed; they are constants below.
\<close>

type_synonym rgb = "nat \<times> nat \<times> nat"

record atom =
  ID :: nat
  elem :: string
  name :: string
  resn :: string
  resi :: string
  chain_id :: string
  polymer_protein :: bool
  polymer_nucleic :: bool
  organic :: bool
  vdw :: real
  color :: int

datatype host_call =
    Set_color string rgb
  | Select string string
  | Delete string
  | Deselect
  | Sync
  | Set_setting string real
  | Iterate string string
  | Alter string string
  | Recolor
  | Color string string
  | Show_as string string
  | Hide string string

record pymol =
  atoms :: "atom list"
  color_table :: "(string \<times> rgb) list"
  calls :: "host_call list"
  printed :: "string list"
  mt_colors :: "int list"
  tmp_dict :: "string \<rightharpoonup> int"
  draws :: "nat \<Rightarrow> nat"
  drawn :: nat

definition request :: "host_call \<Rightarrow> pymol \<Rightarrow> pymol" where
  "request c st = st\<lparr>calls := calls st @ [c]\<rparr>"

definition py_print :: "string \<Rightarrow> pymol \<Rightarrow> pymol" where
  "py_print s st = st\<lparr>printed := printed st @ [s]\<rparr>"

definition cmd_set_color :: "string \<Rightarrow> rgb \<Rightarrow> pymol \<Rightarrow> pymol" where
  "cmd_set_color col rgb st =
     request (Set_color col rgb) (st\<lparr>color_table := dict_set (color_table st) col rgb\<rparr>)"

fun index_of :: "'a list \<Rightarrow> 'a \<Rightarrow> int" where
  "index_of [] x = -1"
| "index_of (y # ys) x =
     (if y = x then 0 else (let i = index_of ys x in if i < 0 then -1 else i + 1))"

definition cmd_get_color_index :: "pymol \<Rightarrow> string \<Rightarrow> int" where
  "cmd_get_color_index st col = index_of (map fst (color_table st)) col"

definition cmd_select :: "string \<Rightarrow> string \<Rightarrow> pymol \<Rightarrow> pymol" where
  "cmd_select sel logic = request (Select sel logic)"

definition cmd_delete :: "string \<Rightarrow> pymol \<Rightarrow> pymol" where
  "cmd_delete sel = request (Delete sel)"

definition cmd_sync :: "pymol \<Rightarrow> pymol" where
  "cmd_sync = request Sync"

definition cmd_deselect :: "pymol \<Rightarrow> pymol" where
  "cmd_deselect = request Deselect"

definition cmd_recolor :: "pymol \<Rightarrow> pymol" where
  "cmd_recolor = request Recolor"

definition cmd_set :: "string \<Rightarrow> real \<Rightarrow> pymol \<Rightarrow> pymol" where
  "cmd_set setting v = request (Set_setting setting v)"

definition cmd_color :: "string \<Rightarrow> string \<Rightarrow> pymol \<Rightarrow> pymol" where
  "cmd_color col selection = request (Color col selection)"

definition cmd_show_as :: "string \<Rightarrow> string \<Rightarrow> pymol \<Rightarrow> pymol" where
  "cmd_show_as rep selection = request (Show_as rep selection)"

definition cmd_hide :: "string \<Rightarrow> string \<Rightarrow> pymol \<Rightarrow> pymol" where
  "cmd_hide rep selection = request (Hide rep selection)"

subsection \<open>\<open>iterate\<close> and \<open>alter\<close>\<close>

text \<open>
  \<open>cmd.iterate(selection, expression)\<close> and \<open>cmd.alter(selection, expression)\<close> run a
  Python statement once for each atom of the selection, in atom order, with the atom's
  attributes as local names and \<open>stored\<close> in scope; \<open>alter\<close> writes the changed
  attributes back to the atom, \<open>iterate\<close> does not.  An exception in the statement ends
  the command and is raised to the caller.

  Which atoms a selection expression denotes is the host's business: its reading of
  selection expressions is the parameter \<open>R\<close> of everything below, a predicate on the
  atom for each expression.  An expression that the host cannot read is outside the
  model.

  The plugin passes three statements, each built from a literal and, for the first two,
  the text \<open>method\<close>, which names an atom attribute.
\<close>

datatype py_stmt =
    Draw_color string
  | Assign_color string
  | Assign_vdw

fun stmt_text :: "py_stmt \<Rightarrow> string" where
  "stmt_text (Draw_color method) =
     ''stored.tmp_dict['' @ method @ ''] = stored.r_choice(stored.mt_colors)''"
| "stmt_text (Assign_color method) = ''color = stored.tmp_dict['' @ method @ '']''"
| "stmt_text Assign_vdw = ''vdw=stored.alter_vdw(elem, vdw)''"

definition atom_attr :: "string \<Rightarrow> atom \<Rightarrow> string option" where
  \<comment> \<open>the value of a name in the atom's namespace, for the string attributes of the
     model; any other text is an unbound name here\<close>
  "atom_attr method a =
     (if method = ''name'' then Some (name a)
      else if method = ''resn'' then Some (resn a)
      else if method = ''resi'' then Some (resi a)
      else if method = ''chain'' then Some (chain_id a)
      else if method = ''elem'' then Some (elem a)
      else None)"

definition random_choice :: "int list \<Rightarrow> pymol \<Rightarrow> py_error + (int \<times> pymol)" where
  \<comment> \<open>\<open>random.choice(seq)\<close>: IndexError on an empty sequence, else the element at the
     next number of the generator, taken below \<open>len(seq)\<close>\<close>
  "random_choice seq st =
     (if seq = [] then Inl IndexError
      else Inr (seq ! (draws st (drawn st) mod length seq), st\<lparr>drawn := Suc (drawn st)\<rparr>))"

fun exec_stmt :: "py_stmt \<Rightarrow> atom \<Rightarrow> pymol \<Rightarrow> py_error + (atom \<times> pymol)" where
  "exec_stmt (Draw_color method) a st =
     bind_err (random_choice (mt_colors st) st) (\<lambda>(c, st1).
       case atom_attr method a of
         None \<Rightarrow> Inl (NameError method)
       | Some k \<Rightarrow> Inr (a, st1\<lparr>tmp_dict := (tmp_dict st1)(k \<mapsto> c)\<rparr>))"
| "exec_stmt (Assign_color method) a st =
     (case atom_attr method a of
        None \<Rightarrow> Inl (NameError method)
      | Some k \<Rightarrow>
          (case tmp_dict st k of
             None \<Rightarrow> Inl (KeyError k)
           | Some c \<Rightarrow> Inr (a\<lparr>color := c\<rparr>, st)))"
| "exec_stmt Assign_vdw a st = Inr (a\<lparr>vdw := alter_vdw (elem a) (vdw a)\<rparr>, st)"

fun visit ::
  "(atom \<Rightarrow> bool) \<Rightarrow> py_stmt \<Rightarrow> bool \<Rightarrow> atom list \<Rightarrow> pymol \<Rightarrow> py_error + (atom list \<times> pymol)"
where
  "visit P stmt write [] st = Inr ([], st)"
| "visit P stmt write (a # as) st =
     (if P a then
        bind_err (exec_stmt stmt a st) (\<lambda>(a', st1).
          bind_err (visit P stmt write as st1) (\<lambda>(as', st2).
            Inr ((if write then a' else a) # as', st2)))
      else
        bind_err (visit P stmt write as st) (\<lambda>(as', st2). Inr (a # as', st2)))"

definition cmd_iterate ::
  "(string \<Rightarrow> atom \<Rightarrow> bool) \<Rightarrow> string \<Rightarrow> py_stmt \<Rightarrow> pymol \<Rightarrow> py_error + pymol" where
  "cmd_iterate R selection stmt st =
     (let st0 = request (Iterate selection (stmt_text stmt)) st in
      bind_err (visit (R selection) stmt False (atoms st0) st0) (\<lambda>(as', st1).
        Inr (st1\<lparr>atoms := as'\<rparr>)))"

definition cmd_alter ::
  "(string \<Rightarrow> atom \<Rightarrow> bool) \<Rightarrow> string \<Rightarrow> py_stmt \<Rightarrow> pymol \<Rightarrow> py_error + pymol" where
  "cmd_alter R selection stmt st =
     (let st0 = request (Alter selection (stmt_text stmt)) st in
      bind_err (visit (R selection) stmt True (atoms st0) st0) (\<lambda>(as', st1).
        Inr (st1\<lparr>atoms := as'\<rparr>)))"

section \<open>\<open>mt_nice.py\<close>\<close>

subsection \<open>\<open>nice_settings\<close>\<close>

definition colors :: "rgb list" where
  "colors = [
    (240, 163, 255), (0, 117, 220), (153, 63, 0), (76, 0, 92), (25, 25, 25), (0, 92, 49),
    (43, 206, 72), (255, 204, 153), (128, 128, 128), (148, 255, 181), (143, 124, 0),
    (157, 204, 0), (194, 0, 136), (0, 51, 128), (255, 164, 5), (255, 168, 187),
    (66, 102, 0), (255, 0, 16), (94, 241, 242), (0, 153, 143), (224, 255, 102),
    (116, 10, 255), (153, 0, 0), (255, 255, 128), (255, 255, 0), (255, 80, 5)]"

definition col_name :: "nat \<Rightarrow> string" where
  "col_name i = ''mt_color_'' @ show_nat i"

fun register_colors ::
  "(nat \<times> rgb) list \<Rightarrow> (string \<times> rgb) list \<Rightarrow> pymol \<Rightarrow> (string \<times> rgb) list \<times> pymol" where
  \<comment> \<open>the loop over \<open>enumerate(colors)\<close>; the second argument is the local dict
     \<open>mt_colors\<close>\<close>
  "register_colors [] d st = (d, st)"
| "register_colors ((i, rgb) # rest) d st =
     register_colors rest (dict_set d (col_name i) rgb) (cmd_set_color (col_name i) rgb st)"

definition mt_selectors :: "(string \<times> string) list" where
  "mt_selectors = [
    (''prot'', ''polymer.protein''),
    (''BB'', ''polymer.protein and name BB''),
    (''SC'', ''polymer.protein and name SC*''),
    (''solv'', ''resn W or resn WN or resn ION''),
    (''ions'', ''resn ION''),
    (''lip'', ''organic and not ions''),
    (''nucl'', ''polymer.nucleic'')]"

text \<open>
  An entry of \<open>stored.mt_nice_set\<close> is \<open>None\<close> or a list of a function and its argument;
  the functions are \<open>mt_color\<close>, \<open>cmd.color\<close>, \<open>cmd.show_as\<close> and \<open>cmd.hide\<close>.
\<close>

datatype command = Mt_color string | Cmd_color string | Cmd_show_as string | Cmd_hide string

type_synonym commands = "(string \<times> command option) list"

definition mt_nice_set :: "(string \<times> (string \<times> commands) list) list" where
  "mt_nice_set = [
    (''clean'', [
      (''prot'', [(''color_method'', None), (''style'', None)]),
      (''BB'', [(''color_method'', Some (Mt_color ''chain'')),
                (''style'', Some (Cmd_show_as ''sticks''))]),
      (''SC'', [(''color_method'', None), (''style'', Some (Cmd_hide ''everything''))]),
      (''solv'', [(''color_method'', None), (''style'', Some (Cmd_hide ''everything''))]),
      (''ions'', [(''color_method'', None), (''style'', Some (Cmd_hide ''everything''))]),
      (''lip'', [(''color_method'', Some (Mt_color ''resn'')),
                 (''style'', Some (Cmd_show_as ''sticks''))]),
      (''nucl'', [(''color_method'', Some (Mt_color ''resi'')),
                  (''style'', Some (Cmd_show_as ''sticks''))])]),
    (''rainbow'', [
      (''prot'', [(''color_method'', None), (''style'', None)]),
      (''BB'', [(''color_method'', Some (Mt_color ''chain'')),
                (''style'', Some (Cmd_show_as ''sticks''))]),
      (''SC'', [(''color_method'', Some (Mt_color ''resn'')),
                (''style'', Some (Cmd_show_as ''sticks''))]),
      (''solv'', [(''color_method'', Some (Cmd_color ''blue'')),
                  (''style'', Some (Cmd_show_as ''nb_spheres''))]),
      (''ions'', [(''color_method'', Some (Mt_color ''name'')),
                  (''style'', Some (Cmd_show_as ''nb_spheres''))]),
      (''lip'', [(''color_method'', Some (Mt_color ''resi'')),
                 (''style'', Some (Cmd_show_as ''sticks''))]),
      (''nucl'', [(''color_method'', Some (Mt_color ''resn'')),
                  (''style'', Some (Cmd_show_as ''sticks''))])]),
    (''balls'', [
      (''prot'', [(''color_method'', None), (''style'', None)]),
      (''BB'', [(''color_method'', Some (Cmd_color ''purple'')),
                (''style'', Some (Cmd_show_as ''spheres''))]),
      (''SC'', [(''color_method'', Some (Cmd_color ''red'')),
                (''style'', Some (Cmd_show_as ''spheres''))]),
      (''solv'', [(''color_method'', Some (Cmd_color ''blue'')),
                  (''style'', Some (Cmd_show_as ''nb_spheres''))]),
      (''ions'', [(''color_method'', Some (Mt_color ''resn'')),
                  (''style'', Some (Cmd_show_as ''nb_spheres''))]),
      (''lip'', [(''color_method'', Some (Mt_color ''resn'')),
                 (''style'', Some (Cmd_show_as ''spheres''))]),
      (''nucl'', [(''color_method'', Some (Mt_color ''resi'')),
                  (''style'', Some (Cmd_show_as ''spheres''))])])]"

definition nice_settings :: "pymol \<Rightarrow> pymol" where
  "nice_settings st =
     (let (d, st1) = register_colors (enumerate 0 colors) [] st in
      st1\<lparr>mt_colors := map (cmd_get_color_index st1) (map fst d)\<rparr>)"

subsection \<open>\<open>mt_sele\<close>\<close>

definition mt_sele :: "string option \<Rightarrow> pymol \<Rightarrow> pymol" where
  "mt_sele delete st =
     (let st1 =
        (if delete \<noteq> None \<and> delete \<noteq> Some [] then
           (if delete = Some ''delete'' then
              fold (\<lambda>sel. cmd_delete sel) (map fst mt_selectors) st
            else
              py_print
                ''Unknown option. Type `mt_sele delete` to delete all the mt selections'' st)
         else
           fold (\<lambda>(sel, logic). cmd_select sel logic) mt_selectors st)
      in cmd_sync (cmd_deselect (cmd_sync st1)))"

subsection \<open>\<open>mt_color\<close>\<close>

definition mt_color ::
  "(string \<Rightarrow> atom \<Rightarrow> bool) \<Rightarrow> string \<Rightarrow> string \<Rightarrow> pymol \<Rightarrow> py_error + pymol" where
  "mt_color R method selection st =
     bind_err (cmd_iterate R selection (Draw_color method) (st\<lparr>tmp_dict := Map.empty\<rparr>))
       (\<lambda>st1.
     bind_err (cmd_alter R selection (Assign_color method) st1) (\<lambda>st2.
     Inr (cmd_sync (cmd_recolor ((cmd_sync st2)\<lparr>tmp_dict := Map.empty\<rparr>)))))"

subsection \<open>\<open>set_vdw\<close>\<close>

definition set_vdw :: "(string \<Rightarrow> atom \<Rightarrow> bool) \<Rightarrow> string \<Rightarrow> pymol \<Rightarrow> py_error + pymol" where
  "set_vdw R selection st =
     bind_err (cmd_alter R selection Assign_vdw st) (\<lambda>st1. Inr (cmd_sync st1))"

subsection \<open>\<open>mt_nice\<close>\<close>

fun run_command ::
  "(string \<Rightarrow> atom \<Rightarrow> bool) \<Rightarrow> command \<Rightarrow> string \<Rightarrow> pymol \<Rightarrow> py_error + pymol" where
  \<comment> \<open>\<open>command[0](*command[1:], selection=...)\<close>\<close>
  "run_command R (Mt_color method) selection st = mt_color R method selection st"
| "run_command R (Cmd_color col) selection st = Inr (cmd_color col selection st)"
| "run_command R (Cmd_show_as rep) selection st = Inr (cmd_show_as rep selection st)"
| "run_command R (Cmd_hide rep) selection st = Inr (cmd_hide rep selection st)"

fun run_commands ::
  "(string \<Rightarrow> atom \<Rightarrow> bool) \<Rightarrow> string \<Rightarrow> command option list \<Rightarrow> pymol \<Rightarrow> py_error + pymol"
where
  \<comment> \<open>the loop over \<open>commands.values()\<close>\<close>
  "run_commands R selection [] st = Inr st"
| "run_commands R selection (None # rest) st = run_commands R selection rest st"
| "run_commands R selection (Some c # rest) st =
     bind_err (run_command R c selection st) (run_commands R selection rest)"

fun run_settings ::
  "(string \<Rightarrow> atom \<Rightarrow> bool) \<Rightarrow> string \<Rightarrow> (string \<times> commands) list \<Rightarrow> pymol
   \<Rightarrow> py_error + pymol"
where
  \<comment> \<open>the loop over \<open>settings.items()\<close>\<close>
  "run_settings R selection [] st = Inr st"
| "run_settings R selection ((sel_type, commands) # rest) st =
     bind_err (run_commands R (selection @ '' and '' @ sel_type) (map snd commands) st)
       (run_settings R selection rest)"

definition mt_nice ::
  "(string \<Rightarrow> atom \<Rightarrow> bool) \<Rightarrow> string \<Rightarrow> string \<Rightarrow> pymol \<Rightarrow> py_error + pymol" where
  "mt_nice R style selection st =
     (if style \<notin> set [''clean'', ''rainbow'', ''balls''] then
        Inr (py_print (''Error: '' @ style @ '' is not a valid option. See help mt_nice'') st)
      else
        bind_err (set_vdw R selection (cmd_sync (cmd_set ''stick_radius'' 0.7 (mt_sele None st))))
          (\<lambda>st1.
            case map_of mt_nice_set style of
              None \<Rightarrow> Inl (KeyError style)
            | Some settings \<Rightarrow> run_settings R selection settings (cmd_sync st1)))"

section \<open>\<open>store_settings.py\<close>\<close>

text \<open>
  The values a host setting can have, the exceptions \<open>store_settings\<close> can raise, and the
  file system: a map from path to file content.  A call ends by returning or by raising, and
  in both cases leaves a file system behind.  \<open>open(filename, 'w+')\<close> makes the file or
  empties it, and is taken to succeed; what was printed to the file is in it when the
  \<open>with\<close> block is left, also by an exception.

  \<open>os.path.splitext\<close> is the POSIX one: the extension starts at the last dot of the last
  path component, and dots that lead that component do not count.

  The settings are read from the host: \<open>name_list\<close> and \<open>get_setting\<close> are parameters.
  \<open>for setting, value in settings_dict\<close> iterates the keys of the dict and unpacks each
  key, a \<open>str\<close>, into two names: that succeeds for a key of exactly two characters, which
  gives two one-character strings, and raises ValueError otherwise.
\<close>

datatype pyval = PStr string | PInt int | PBool bool | PFloat real | POther

datatype io_error = TypeError string | ValueError_unpack string | ValueError_type pyval

datatype outcome = Returned | Raised io_error

type_synonym filesystem = "string \<rightharpoonup> string"

definition rfind :: "string \<Rightarrow> char \<Rightarrow> int" where
  \<comment> \<open>\<open>p.rfind(c)\<close>: the highest index of \<open>c\<close>, or -1\<close>
  "rfind p c = (case filter (\<lambda>i. p ! i = c) (rev [0..<length p]) of [] \<Rightarrow> -1 | i # _ \<Rightarrow> int i)"

definition splitext :: "string \<Rightarrow> string \<times> string" where
  "splitext p =
     (let sepIndex = rfind p (CHR ''/''); dotIndex = rfind p (CHR ''.'') in
      if dotIndex > sepIndex \<and>
         list_ex (\<lambda>i. p ! i \<noteq> CHR ''.'') [nat (sepIndex + 1)..<nat dotIndex]
      then (take (nat dotIndex) p, drop (nat dotIndex) p)
      else (p, []))"

definition show_int :: "int \<Rightarrow> string" where
  "show_int i = (if i < 0 then ''-'' @ show_nat (nat (- i)) else show_nat (nat i))"

definition newline :: string where
  "newline = [CHR 0x0A]"

definition quote :: string where
  "quote = [CHR 0x22]"

fun unpack2 :: "string \<Rightarrow> (string \<times> pyval) option" where
  \<comment> \<open>\<open>setting, value = key\<close>\<close>
  "unpack2 [a, b] = Some ([a], PStr [b])"
| "unpack2 key = None"

text \<open>The body of the loop: \<open>isinstance(value, int)\<close> holds for \<open>bool\<close> too.\<close>

fun setting_line :: "string \<Rightarrow> pyval \<Rightarrow> io_error + string" where
  "setting_line setting (PStr v) =
     Inr (''cmd.set('' @ quote @ setting @ quote @ '', '' @ quote @ v @ quote @ '')'')"
| "setting_line setting (PInt i) =
     Inr (''cmd.set('' @ quote @ setting @ quote @ '', '' @ show_int i @ '')'')"
| "setting_line setting (PBool b) =
     Inr (''cmd.set('' @ quote @ setting @ quote @ '', '' @ (if b then ''True'' else ''False'')
          @ '')'')"
| "setting_line setting value = Inl (ValueError_type value)"

fun write_settings :: "string list \<Rightarrow> string \<Rightarrow> string \<times> outcome" where
  "write_settings [] out = (out, Returned)"
| "write_settings (key # keys) out =
     (case unpack2 key of
        None \<Rightarrow> (out, Raised (ValueError_unpack key))
      | Some (setting, value) \<Rightarrow>
          (case setting_line setting value of
             Inl e \<Rightarrow> (out, Raised e)
           | Inr line \<Rightarrow> write_settings keys (out @ line @ newline)))"

fun collect_settings ::
  "string list \<Rightarrow> (string \<Rightarrow> pyval) \<Rightarrow> (string \<times> pyval) list \<Rightarrow> (string \<times> pyval) list" where
  "collect_settings [] get_setting d = d"
| "collect_settings (setting # rest) get_setting d =
     collect_settings rest get_setting (dict_set d setting (get_setting setting))"

definition header :: string where
  \<comment> \<open>the literal ends with a newline of its own; \<open>print\<close> adds another\<close>
  "header = ''# pymol settings file autogenerated by stir'' @ newline"

definition store_settings ::
  "string \<Rightarrow> string list \<Rightarrow> (string \<Rightarrow> pyval) \<Rightarrow> filesystem \<Rightarrow> filesystem \<times> outcome" where
  "store_settings filename name_list get_setting fs =
     (if snd (splitext filename) \<noteq> ''.py'' then
        (fs, Raised (TypeError (filename @ '' must be a .py file'')))
      else
        (let settings_dict = collect_settings name_list get_setting [];
             (out, r) = write_settings (map fst settings_dict) (header @ newline)
         in (fs(filename \<mapsto> out), r)))"

section \<open>The selection expressions of \<open>stored.mt_selectors\<close>\<close>

text \<open>
  This section is a model of the host, not of code of the plugin: the plugin only holds
  the seven expressions as strings and hands them to \<open>cmd.select\<close>.  What they select is
  decided by the host's selection language, which is modelled here from its
  documentation, for the part of the language that the seven expressions use:
  \<^item> the keywords \<open>polymer.protein\<close>, \<open>polymer.nucleic\<close> and \<open>organic\<close> read the host's
    classification of the atom;
  \<^item> \<open>name\<close> and \<open>resn\<close> followed by a pattern compare the atom's name or residue name
    with the pattern as a whole, a trailing \<open>*\<close> in the pattern standing for any rest;
    the comparison ignores the case of letters when the host setting \<open>ignore_case\<close> is
    on, and that setting is the parameter \<open>ic\<close> below;
  \<^item> a word that is no keyword is the name of a selection made before;
  \<^item> \<open>and\<close>, \<open>or\<close> and \<open>not\<close> combine selections.
  \<open>selector_logic\<close> gives each of the seven expressions as a term of that language, and
  \<open>render\<close> gives the text of a term.  \<open>mt_sele\<close> makes the selections in the order of
  the dict, so \<open>ions\<close> exists when \<open>lip\<close>, which mentions it, is made; an expression that
  mentions an unknown name is an error (\<open>None\<close>).
\<close>

datatype sele =
    Polymer_protein
  | Polymer_nucleic
  | Organic
  | Name_is string
  | Resn_is string
  | Named string
  | And_sele sele sele
  | Or_sele sele sele
  | Not_sele sele

fun render :: "sele \<Rightarrow> string" where
  "render Polymer_protein = ''polymer.protein''"
| "render Polymer_nucleic = ''polymer.nucleic''"
| "render Organic = ''organic''"
| "render (Name_is pat) = ''name '' @ pat"
| "render (Resn_is pat) = ''resn '' @ pat"
| "render (Named sel) = sel"
| "render (And_sele x y) = render x @ '' and '' @ render y"
| "render (Or_sele x y) = render x @ '' or '' @ render y"
| "render (Not_sele x) = ''not '' @ render x"

definition lower_char :: "char \<Rightarrow> char" where
  \<comment> \<open>host model: the letters \<open>A\<close> to \<open>Z\<close> go to \<open>a\<close> to \<open>z\<close>\<close>
  "lower_char c =
     (let n = (of_char c :: nat) in if 65 \<le> n \<and> n \<le> 90 then char_of (n + 32) else c)"

definition match_form :: "bool \<Rightarrow> string \<Rightarrow> string" where
  \<comment> \<open>host model: the form in which two words are compared, under \<open>ignore_case = ic\<close>\<close>
  "match_form ic s = (if ic then map lower_char s else s)"

definition wildcard :: "bool \<Rightarrow> string \<Rightarrow> string \<Rightarrow> bool" where
  \<comment> \<open>host model: does the word \<open>s\<close> match the pattern \<open>pat\<close>\<close>
  "wildcard ic pat s =
     (if pat \<noteq> [] \<and> last pat = CHR ''*''
      then prefix (match_form ic (butlast pat)) (match_form ic s)
      else match_form ic s = match_form ic pat)"

fun selects ::
  "bool \<Rightarrow> (string \<rightharpoonup> (atom \<Rightarrow> bool)) \<Rightarrow> sele \<Rightarrow> (atom \<Rightarrow> bool) option" where
  \<comment> \<open>host model: the atoms that an expression selects, given the selections made
     before\<close>
  "selects ic env Polymer_protein = Some polymer_protein"
| "selects ic env Polymer_nucleic = Some polymer_nucleic"
| "selects ic env Organic = Some organic"
| "selects ic env (Name_is pat) = Some (\<lambda>a. wildcard ic pat (name a))"
| "selects ic env (Resn_is pat) = Some (\<lambda>a. wildcard ic pat (resn a))"
| "selects ic env (Named sel) = env sel"
| "selects ic env (And_sele x y) =
     (case (selects ic env x, selects ic env y) of
        (Some P, Some Q) \<Rightarrow> Some (\<lambda>a. P a \<and> Q a) | _ \<Rightarrow> None)"
| "selects ic env (Or_sele x y) =
     (case (selects ic env x, selects ic env y) of
        (Some P, Some Q) \<Rightarrow> Some (\<lambda>a. P a \<or> Q a) | _ \<Rightarrow> None)"
| "selects ic env (Not_sele x) =
     (case selects ic env x of Some P \<Rightarrow> Some (\<lambda>a. \<not> P a) | None \<Rightarrow> None)"

fun select_all ::
  "bool \<Rightarrow> (string \<times> sele) list \<Rightarrow> (string \<rightharpoonup> (atom \<Rightarrow> bool))
   \<Rightarrow> (string \<rightharpoonup> (atom \<Rightarrow> bool)) option"
where
  \<comment> \<open>the \<open>cmd.select\<close> calls of \<open>mt_sele\<close>, read by the host model\<close>
  "select_all ic [] env = Some env"
| "select_all ic ((sel, logic) # rest) env =
     (case selects ic env logic of
        None \<Rightarrow> None
      | Some P \<Rightarrow> select_all ic rest (env(sel \<mapsto> P)))"

definition selector_logic :: "(string \<times> sele) list" where
  \<comment> \<open>the seven strings of \<open>mt_selectors\<close>, parsed by hand; \<open>render\<close> gives the strings
     back\<close>
  "selector_logic = [
    (''prot'', Polymer_protein),
    (''BB'', And_sele Polymer_protein (Name_is ''BB'')),
    (''SC'', And_sele Polymer_protein (Name_is ''SC*'')),
    (''solv'', Or_sele (Or_sele (Resn_is ''W'') (Resn_is ''WN'')) (Resn_is ''ION'')),
    (''ions'', Resn_is ''ION''),
    (''lip'', And_sele Organic (Not_sele (Named ''ions''))),
    (''nucl'', Polymer_nucleic)]"

section \<open>Notions used in the statements\<close>

text \<open>
  The attribute names that \<open>atom_attr\<close> knows; the presets use \<open>chain\<close>, \<open>resn\<close>,
  \<open>resi\<close> and \<open>name\<close>.
\<close>

definition known_method :: "string \<Rightarrow> bool" where
  "known_method m = (m \<in> set [''name'', ''resn'', ''resi'', ''chain'', ''elem''])"

text \<open>
  \<open>stored.tmp_dict\<close> after the \<open>iterate\<close> of \<open>mt_color\<close> has visited the atoms \<open>as\<close>,
  starting from the dict \<open>td\<close> with the \<open>n\<close>-th draw next: every visited atom overwrites
  the entry of its attribute value with a new draw.
\<close>

fun drawn_dict ::
  "(atom \<Rightarrow> bool) \<Rightarrow> string \<Rightarrow> int list \<Rightarrow> (nat \<Rightarrow> nat) \<Rightarrow> nat \<Rightarrow> atom list
   \<Rightarrow> (string \<rightharpoonup> int) \<Rightarrow> (string \<rightharpoonup> int)" where
  "drawn_dict P m pal d n [] td = td"
| "drawn_dict P m pal d n (a # as) td =
     (if P a then
        drawn_dict P m pal d (Suc n) as (td(the (atom_attr m a) \<mapsto> pal ! (d n mod length pal)))
      else drawn_dict P m pal d n as td)"

text \<open>The requests that one rule of a preset makes to the host.\<close>

fun command_calls :: "command \<Rightarrow> string \<Rightarrow> host_call list" where
  "command_calls (Mt_color method) selection =
     [Iterate selection (stmt_text (Draw_color method)),
      Alter selection (stmt_text (Assign_color method)), Sync, Recolor, Sync]"
| "command_calls (Cmd_color col) selection = [Color col selection]"
| "command_calls (Cmd_show_as rep) selection = [Show_as rep selection]"
| "command_calls (Cmd_hide rep) selection = [Hide rep selection]"

fun rule_calls :: "command option \<Rightarrow> string \<Rightarrow> host_call list" where
  "rule_calls None selection = []"
| "rule_calls (Some c) selection = command_calls c selection"

text \<open>
  The rule that a preset has for a selector group in one of the two slots, looked up by
  name; \<open>None\<close> when the entry is \<open>None\<close>.
\<close>

definition rule_of :: "string \<Rightarrow> string \<Rightarrow> string \<Rightarrow> command option" where
  "rule_of style sel_type slot =
     (case map_of mt_nice_set style of
        None \<Rightarrow> None
      | Some settings \<Rightarrow>
          (case map_of settings sel_type of
             None \<Rightarrow> None
           | Some commands \<Rightarrow>
               (case map_of commands slot of None \<Rightarrow> None | Some rule \<Rightarrow> rule)))"

definition color_rule :: "string \<Rightarrow> string \<Rightarrow> command option" where
  "color_rule style sel_type = rule_of style sel_type ''color_method''"

definition style_rule :: "string \<Rightarrow> string \<Rightarrow> command option" where
  "style_rule style sel_type = rule_of style sel_type ''style''"

definition settings_calls :: "string \<Rightarrow> (string \<times> commands) list \<Rightarrow> host_call list" where
  "settings_calls selection settings =
     concat (map (\<lambda>(sel_type, commands).
       concat (map (\<lambda>rule. rule_calls rule (selection @ '' and '' @ sel_type)) (map snd commands)))
       settings)"

definition methods_known :: "(string \<times> commands) list \<Rightarrow> bool" where
  "methods_known settings =
     list_all (\<lambda>(sel_type, commands).
       list_all (\<lambda>(slot, rule). case rule of Some (Mt_color m) \<Rightarrow> known_method m | _ \<Rightarrow> True)
         commands) settings"

text \<open>Assigning all the palette entries to a dict, in order.\<close>

definition set_all :: "(nat \<times> rgb) list \<Rightarrow> (string \<times> rgb) list \<Rightarrow> (string \<times> rgb) list" where
  "set_all ps d = fold (\<lambda>(i, rgb) d. dict_set d (col_name i) rgb) ps d"

text \<open>What a match of each pattern means for the characters of the bead code.\<close>

fun core_prefix :: "string \<Rightarrow> bool" where
  "core_prefix [] = False"
| "core_prefix [c] = (c = CHR ''W'')"
| "core_prefix (c # d # rest) =
     (c = CHR ''W'' \<or> (c \<in> set ''QPNCX'' \<and> (py_word d \<or> py_digit d)))"

text \<open>
  What the selector groups select in the host model, under \<open>ignore_case = ic\<close>: the
  selections that \<open>mt_sele\<close> makes, starting from no selection at all.
\<close>

definition group_selects :: "bool \<Rightarrow> string \<Rightarrow> atom \<Rightarrow> bool option" where
  "group_selects ic sel a =
     (case select_all ic selector_logic Map.empty of
        None \<Rightarrow> None
      | Some env \<Rightarrow> (case env sel of None \<Rightarrow> None | Some P \<Rightarrow> Some (P a)))"

subsection \<open>A small session for concrete runs\<close>

definition demo_atoms :: "atom list" where
  "demo_atoms = [
     \<lparr>ID = 1, elem = ''P5'', name = ''BB'', resn = ''ALA'', resi = ''1'', chain_id = ''A'',
      polymer_protein = True, polymer_nucleic = False, organic = False, vdw = 1.5, color = 0\<rparr>,
     \<lparr>ID = 2, elem = ''SC4'', name = ''SC1'', resn = ''PHE'', resi = ''2'', chain_id = ''A'',
      polymer_protein = True, polymer_nucleic = False, organic = False, vdw = 1.5, color = 0\<rparr>,
     \<lparr>ID = 3, elem = ''TN0'', name = ''SC2'', resn = ''PHE'', resi = ''2'', chain_id = ''B'',
      polymer_protein = True, polymer_nucleic = False, organic = False, vdw = 1.5, color = 0\<rparr>,
     \<lparr>ID = 4, elem = ''Zn'', name = ''ZN'', resn = ''ION'', resi = ''3'', chain_id = [],
      polymer_protein = False, polymer_nucleic = False, organic = False, vdw = 1.5, color = 0\<rparr>]"

definition demo_R :: "string \<Rightarrow> atom \<Rightarrow> bool" where
  "demo_R selection a = (selection = ''all'' \<or> selection = ''all and '' @ name a)"

definition demo :: pymol where
  "demo = \<lparr>atoms = demo_atoms,
     color_table = [(''red'', (255, 0, 0)), (''blue'', (0, 0, 255)), (''purple'', (191, 0, 191))],
     calls = [], printed = [], mt_colors = [3, 4, 5], tmp_dict = Map.empty,
     draws = (\<lambda>n. n), drawn = 0\<rparr>"


definition demo_bb1 :: atom where
  "demo_bb1 = \<lparr>ID = 7, elem = ''P5'', name = ''BB1'', resn = ''ALA'', resi = ''12'',
     chain_id = ''A'', polymer_protein = True, polymer_nucleic = False, organic = False,
     vdw = 2.1, color = 0\<rparr>"

section \<open>Properties of the bead classifier\<close>

lemma re_match_bead_core: "re_match bead_core s = core_prefix s"
  by (induction s rule: core_prefix.induct)
     (auto simp: re_match_def bead_core_def split: list.splits)

lemma re_match_regular: "re_match regular_pattern s = core_prefix s"
  by (simp add: regular_pattern_def re_match_bead_core)

lemma rmatch_Lit_Seq:
  "re_match (Seq (Lit c) r) s = (case s of [] \<Rightarrow> False | x # xs \<Rightarrow> x = c \<and> re_match r xs)"
  by (cases s) (auto simp: re_match_def)

lemma re_match_small:
  "re_match small_pattern s = (case s of [] \<Rightarrow> False | x # xs \<Rightarrow> x = CHR ''S'' \<and> core_prefix xs)"
  by (simp add: small_pattern_def rmatch_Lit_Seq re_match_bead_core split: list.split)

lemma re_match_tiny:
  "re_match tiny_pattern s = (case s of [] \<Rightarrow> False | x # xs \<Rightarrow> x = CHR ''T'' \<and> core_prefix xs)"
  by (simp add: tiny_pattern_def rmatch_Lit_Seq re_match_bead_core split: list.split)

lemma core_prefix_first:
  "core_prefix s \<Longrightarrow> \<exists>c rest. s = c # rest \<and> c \<in> set ''QPNCXW''"
  by (induction s rule: core_prefix.induct) auto

lemma regular_not_small: "re_match regular_pattern s \<Longrightarrow> \<not> re_match small_pattern s"
  by (auto simp: re_match_regular re_match_small split: list.splits dest: core_prefix_first)

lemma regular_not_tiny: "re_match regular_pattern s \<Longrightarrow> \<not> re_match tiny_pattern s"
  by (auto simp: re_match_regular re_match_tiny split: list.splits dest: core_prefix_first)

lemma small_not_tiny: "re_match small_pattern s \<Longrightarrow> \<not> re_match tiny_pattern s"
  by (auto simp: re_match_small re_match_tiny split: list.splits)

text \<open>
  Claim C1.  The classifier returns a value for every bead code and every fallback: one of
  the three radii or the fallback.  A bead code that matches the regular pattern gets
  2.35, one that matches the small pattern 2.00, one that matches the tiny pattern 1.65,
  and a bead code that matches none of the three gets the fallback unchanged.
\<close>

theorem alter_vdw_classifies:
  "alter_vdw bead fallback \<in> {2.35, 2.00, 1.65, fallback} \<and>
   (re_match regular_pattern bead \<longrightarrow> alter_vdw bead fallback = 2.35) \<and>
   (re_match small_pattern bead \<longrightarrow> alter_vdw bead fallback = 2.00) \<and>
   (re_match tiny_pattern bead \<longrightarrow> alter_vdw bead fallback = 1.65) \<and>
   (\<not> re_match regular_pattern bead \<and> \<not> re_match small_pattern bead \<and>
    \<not> re_match tiny_pattern bead \<longrightarrow> alter_vdw bead fallback = fallback)"
  using regular_not_small [of bead] regular_not_tiny [of bead] small_not_tiny [of bead]
  by (auto simp: alter_vdw_def vdw_patterns_def)

theorem alter_vdw_classifies_witness:
  "re_match regular_pattern ''Qa'' \<and> alter_vdw ''Qa'' 1 = 2.35 \<and>
   re_match small_pattern ''SW'' \<and> alter_vdw ''SW'' 1 = 2.00 \<and>
   re_match tiny_pattern ''TC5'' \<and> alter_vdw ''TC5'' 1 = 1.65 \<and>
   \<not> re_match regular_pattern ''Zn'' \<and> \<not> re_match small_pattern ''Zn'' \<and>
   \<not> re_match tiny_pattern ''Zn'' \<and> alter_vdw ''Zn'' 1 = 1"
  using alter_vdw_classifies [of "''Qa''" 1] alter_vdw_classifies [of "''SW''" 1]
    alter_vdw_classifies [of "''TC5''" 1] alter_vdw_classifies [of "''Zn''" 1]
  by (simp add: re_match_regular re_match_small re_match_tiny py_word_def py_digit_def)

lemma first_match_hit:
  "(p, r) \<in> set rs \<Longrightarrow> re_match p e \<Longrightarrow>
   (\<forall>(q, s) \<in> set rs. re_match q e \<longrightarrow> s = r) \<Longrightarrow> first_match rs e v = r"
  by (induction rs) auto

lemma first_match_miss:
  "(\<forall>(q, s) \<in> set rs. \<not> re_match q e) \<Longrightarrow> first_match rs e v = v"
  by (induction rs) auto

lemma first_match_any_order:
  assumes "set rs = set vdw_patterns"
  shows "first_match rs e v = first_match vdw_patterns e v"
proof -
  consider (reg) "re_match regular_pattern e" | (small) "re_match small_pattern e"
    | (tiny) "re_match tiny_pattern e"
    | (none) "\<not> re_match regular_pattern e" "\<not> re_match small_pattern e"
        "\<not> re_match tiny_pattern e"
    by blast
  then show ?thesis
  proof cases
    case reg
    have "first_match rs e v = 2.35"
      using assms reg regular_not_small [of e] regular_not_tiny [of e]
      by (intro first_match_hit [where p = regular_pattern]) (auto simp: vdw_patterns_def)
    moreover have "first_match vdw_patterns e v = 2.35"
      using reg by (simp add: vdw_patterns_def)
    ultimately show ?thesis by simp
  next
    case small
    have "first_match rs e v = 2.00"
      using assms small regular_not_small [of e] small_not_tiny [of e]
      by (intro first_match_hit [where p = small_pattern]) (auto simp: vdw_patterns_def)
    moreover have "first_match vdw_patterns e v = 2.00"
      using small regular_not_small [of e] by (auto simp: vdw_patterns_def)
    ultimately show ?thesis by simp
  next
    case tiny
    have "first_match rs e v = 1.65"
      using assms tiny regular_not_tiny [of e] small_not_tiny [of e]
      by (intro first_match_hit [where p = tiny_pattern]) (auto simp: vdw_patterns_def)
    moreover have "first_match vdw_patterns e v = 1.65"
      using tiny regular_not_tiny [of e] small_not_tiny [of e] by (auto simp: vdw_patterns_def)
    ultimately show ?thesis by simp
  next
    case none
    have "first_match rs e v = v"
      using assms none by (intro first_match_miss) (auto simp: vdw_patterns_def)
    moreover have "first_match vdw_patterns e v = v"
      using none by (simp add: vdw_patterns_def)
    ultimately show ?thesis by simp
  qed
qed

lemma pattern_first_chars:
  "(re_match regular_pattern e \<longrightarrow> (\<exists>c rest. e = c # rest \<and> c \<in> set ''QPNCXW'')) \<and>
   (re_match small_pattern e \<longrightarrow> (\<exists>rest. e = CHR ''S'' # rest)) \<and>
   (re_match tiny_pattern e \<longrightarrow> (\<exists>rest. e = CHR ''T'' # rest))"
  by (auto simp: re_match_regular re_match_small re_match_tiny split: list.splits
      dest: core_prefix_first)

text \<open>
  Claim C10.  A match of the regular pattern starts with one of \<open>Q P N C X W\<close>, a match of
  the small pattern with \<open>S\<close>, a match of the tiny pattern with \<open>T\<close>; so at most one of
  the three rules matches a bead code, and the first-match loop run over the three rules
  in any order returns what the classifier returns.
\<close>

theorem vdw_rules_order_irrelevant:
  "(re_match regular_pattern bead \<longrightarrow> (\<exists>c rest. bead = c # rest \<and> c \<in> set ''QPNCXW'')) \<and>
   (re_match small_pattern bead \<longrightarrow> (\<exists>rest. bead = CHR ''S'' # rest)) \<and>
   (re_match tiny_pattern bead \<longrightarrow> (\<exists>rest. bead = CHR ''T'' # rest)) \<and>
   length (filter (\<lambda>(pattern, radius). re_match pattern bead) vdw_patterns) \<le> 1 \<and>
   (mset rules = mset vdw_patterns \<longrightarrow> first_match rules bead fallback = alter_vdw bead fallback)"
proof -
  have "length (filter (\<lambda>(pattern, radius). re_match pattern bead) vdw_patterns) \<le> 1"
    using regular_not_small [of bead] regular_not_tiny [of bead] small_not_tiny [of bead]
    by (auto simp: vdw_patterns_def)
  moreover have "mset rules = mset vdw_patterns \<longrightarrow>
      first_match rules bead fallback = alter_vdw bead fallback"
    using first_match_any_order [of rules bead fallback] mset_eq_setD [of rules vdw_patterns]
    by (auto simp: alter_vdw_def)
  ultimately show ?thesis
    using pattern_first_chars [of bead] by blast
qed

theorem vdw_rules_order_irrelevant_witness:
  "re_match small_pattern ''SQd'' \<and> (\<exists>rest. ''SQd'' = CHR ''S'' # rest) \<and>
   re_match regular_pattern ''W'' \<and> re_match tiny_pattern ''TN0'' \<and>
   mset [(tiny_pattern, 1.65), (small_pattern, 2.00), (regular_pattern, 2.35)]
     = mset vdw_patterns \<and>
   first_match [(tiny_pattern, 1.65), (small_pattern, 2.00), (regular_pattern, 2.35)]
     ''SQd'' 7 = alter_vdw ''SQd'' 7 \<and>
   alter_vdw ''SQd'' 7 = 2.00"
proof -
  have m: "mset [(tiny_pattern, 1.65), (small_pattern, 2.00), (regular_pattern, 2.35)]
      = mset vdw_patterns"
    by (simp add: vdw_patterns_def)
  have s: "re_match small_pattern ''SQd''" "re_match regular_pattern ''W''"
    "re_match tiny_pattern ''TN0''"
    by (simp_all add: re_match_regular re_match_small re_match_tiny py_word_def py_digit_def)
  have "alter_vdw ''SQd'' 7 = 2.00"
    by (simp add: alter_vdw_def vdw_patterns_def re_match_regular re_match_small
        py_word_def py_digit_def)
  then show ?thesis
    using m s
      vdw_rules_order_irrelevant [of "''SQd''"
        "[(tiny_pattern, 1.65), (small_pattern, 2.00), (regular_pattern, 2.35)]" 7]
      vdw_rules_order_irrelevant [of "''W''" "[]" 0]
      vdw_rules_order_irrelevant [of "''TN0''" "[]" 0]
    by simp
qed

section \<open>Properties of \<open>iterate\<close>, \<open>alter\<close> and \<open>mt_color\<close>\<close>

lemma known_method_attr: "known_method m \<Longrightarrow> \<exists>k. atom_attr m a = Some k"
  by (auto simp: known_method_def atom_attr_def)

lemma exec_stmt_frame:
  "exec_stmt stmt a st = Inr (a', st') \<Longrightarrow>
   calls st' = calls st \<and> mt_colors st' = mt_colors st \<and> atoms st' = atoms st \<and>
   printed st' = printed st \<and> color_table st' = color_table st \<and> draws st' = draws st \<and>
   vdw a' = (if stmt = Assign_vdw then alter_vdw (elem a) (vdw a) else vdw a)"
  by (cases stmt)
     (auto simp: random_choice_def split: if_splits option.splits)

lemma visit_frame:
  "visit P stmt w as st = Inr (as', st') \<Longrightarrow>
   calls st' = calls st \<and> mt_colors st' = mt_colors st \<and> 
   printed st' = printed st \<and> color_table st' = color_table st \<and> draws st' = draws st \<and>
   map vdw as' = (if w \<and> stmt = Assign_vdw
                  then map (\<lambda>a. if P a then alter_vdw (elem a) (vdw a) else vdw a) as
                  else map vdw as)"
proof (induction as arbitrary: st as' st')
  case Nil
  then show ?case by simp
next
  case (Cons a as)
  show ?case
  proof (cases "P a")
    case True
    from Cons.prems True obtain a1 st1 where e: "exec_stmt stmt a st = Inr (a1, st1)"
      by (cases "exec_stmt stmt a st") auto
    from Cons.prems True e obtain as2 st2 where v: "visit P stmt w as st1 = Inr (as2, st2)"
      by (cases "visit P stmt w as st1") auto
    from Cons.prems True e v have r: "as' = (if w then a1 else a) # as2" "st' = st2"
      by auto
    from Cons.IH [OF v] exec_stmt_frame [OF e] r True show ?thesis
      by auto
  next
    case False
    from Cons.prems False obtain as2 st2 where v: "visit P stmt w as st = Inr (as2, st2)"
      by (cases "visit P stmt w as st") auto
    from Cons.prems False v have r: "as' = a # as2" "st' = st2"
      by auto
    from Cons.IH [OF v] r False show ?thesis by auto
  qed
qed

lemma visit_vdw:
  "visit P Assign_vdw True as st =
     Inr (map (\<lambda>a. if P a then a\<lparr>vdw := alter_vdw (elem a) (vdw a)\<rparr> else a) as, st)"
  by (induction as) auto

lemma visit_draw:
  assumes "known_method m" "mt_colors st \<noteq> []"
  shows "visit P (Draw_color m) w as st =
     Inr (as, st\<lparr>drawn := drawn st + length (filter P as),
                 tmp_dict := drawn_dict P m (mt_colors st) (draws st) (drawn st) as (tmp_dict st)\<rparr>)"
  using assms(2)
proof (induction as arbitrary: st)
  case Nil
  then show ?case by simp
next
  case (Cons a as)
  from known_method_attr [OF assms(1)] obtain k where k: "atom_attr m a = Some k" by blast
  show ?case
  proof (cases "P a")
    case True
    let ?st1 = "st\<lparr>drawn := Suc (drawn st),
       tmp_dict := (tmp_dict st)(k \<mapsto> mt_colors st ! (draws st (drawn st) mod length (mt_colors st)))\<rparr>"
    have e: "exec_stmt (Draw_color m) a st = Inr (a, ?st1)"
      using Cons.prems k by (simp add: random_choice_def)
    have "mt_colors ?st1 \<noteq> []" using Cons.prems by simp
    from Cons.IH [OF this] True k show ?thesis
      by (simp del: exec_stmt.simps add: e fun_upd_def)
  next
    case False
    with Cons.IH [OF Cons.prems] show ?thesis by simp
  qed
qed

lemma visit_assign:
  assumes "known_method m"
    and "\<forall>a \<in> set as. P a \<longrightarrow> tmp_dict st (the (atom_attr m a)) \<noteq> None"
  shows "visit P (Assign_color m) True as st =
     Inr (map (\<lambda>a. if P a then a\<lparr>color := the (tmp_dict st (the (atom_attr m a)))\<rparr> else a) as, st)"
  using assms(2)
proof (induction as)
  case Nil
  then show ?case by simp
next
  case (Cons a as)
  from known_method_attr [OF assms(1)] obtain k where k: "atom_attr m a = Some k" by blast
  from Cons show ?case using k by (auto split: option.splits)
qed

lemma drawn_dict_mono:
  "k \<in> dom td \<Longrightarrow> k \<in> dom (drawn_dict P m pal d n as td)"
  by (induction as arbitrary: td n) auto

lemma drawn_dict_defined:
  "a \<in> set as \<Longrightarrow> P a \<Longrightarrow> the (atom_attr m a) \<in> dom (drawn_dict P m pal d n as td)"
proof (induction as arbitrary: td n)
  case Nil
  then show ?case by simp
next
  case (Cons b as)
  show ?case
  proof (cases "a = b")
    case True
    with Cons.prems show ?thesis
      by (simp add: drawn_dict_mono)
  next
    case False
    with Cons show ?thesis by auto
  qed
qed

lemma nth_mod_mem: "pal \<noteq> [] \<Longrightarrow> pal ! (x mod length pal) \<in> set pal"
  by simp

lemma drawn_dict_range:
  "pal \<noteq> [] \<Longrightarrow> \<forall>k c. td k = Some c \<longrightarrow> c \<in> set pal \<Longrightarrow>
   drawn_dict P m pal d n as td k = Some c \<Longrightarrow> c \<in> set pal"
proof (induction as arbitrary: td n)
  case Nil
  then show ?case by simp
next
  case (Cons a as)
  show ?case
  proof (cases "P a")
    case True
    let ?td = "td(the (atom_attr m a) \<mapsto> pal ! (d n mod length pal))"
    have "\<forall>k c. ?td k = Some c \<longrightarrow> c \<in> set pal"
      using Cons.prems(1,2) nth_mod_mem [of pal "d n"] by auto
    moreover have "drawn_dict P m pal d (Suc n) as ?td k = Some c"
      using Cons.prems(3) True by simp
    ultimately show ?thesis using Cons.IH [OF Cons.prems(1)] by blast
  next
    case False
    with Cons show ?thesis by auto
  qed
qed

lemma drawn_dict_const:
  "\<forall>j < length (filter P as). pal ! (d (n + j) mod length pal) = c \<Longrightarrow>
   \<forall>k c'. td k = Some c' \<longrightarrow> c' = c \<Longrightarrow>
   drawn_dict P m pal d n as td k = Some c' \<Longrightarrow> c' = c"
proof (induction as arbitrary: td n)
  case Nil
  then show ?case by simp
next
  case (Cons a as)
  show ?case
  proof (cases "P a")
    case True
    let ?td = "td(the (atom_attr m a) \<mapsto> pal ! (d n mod length pal))"
    have 0: "pal ! (d n mod length pal) = c" using Cons.prems(1) True by force
    have 1: "\<forall>j < length (filter P as). pal ! (d (Suc n + j) mod length pal) = c"
    proof (intro allI impI)
      fix j assume "j < length (filter P as)"
      then have "Suc j < length (filter P (a # as))" using True by simp
      with Cons.prems(1) have "pal ! (d (n + Suc j) mod length pal) = c" by blast
      then show "pal ! (d (Suc n + j) mod length pal) = c" by simp
    qed
    have 2: "\<forall>k c'. ?td k = Some c' \<longrightarrow> c' = c" using Cons.prems(2) 0 by auto
    from Cons.prems(3) True have "drawn_dict P m pal d (Suc n) as ?td k = Some c'" by simp
    from Cons.IH [OF 1 2 this] show ?thesis .
  next
    case False
    with Cons show ?thesis by auto
  qed
qed


lemma bind_err_Inr: "bind_err x f = Inr y \<longleftrightarrow> (\<exists>z. x = Inr z \<and> f z = Inr y)"
  by (cases x) auto

lemma cmd_iterate_frame:
  assumes "cmd_iterate R sel stmt st = Inr st'"
  shows "calls st' = calls st @ [Iterate sel (stmt_text stmt)] \<and> mt_colors st' = mt_colors st \<and>
    map vdw (atoms st') = map vdw (atoms st)"
proof -
  let ?st0 = "request (Iterate sel (stmt_text stmt)) st"
  from assms obtain as1 st1 where
    v: "visit (R sel) stmt False (atoms ?st0) ?st0 = Inr (as1, st1)" and r: "st' = st1\<lparr>atoms := as1\<rparr>"
    by (auto simp: cmd_iterate_def Let_def bind_err_Inr)
  from visit_frame [OF v] r show ?thesis
    by (simp add: request_def)
qed

lemma cmd_alter_frame:
  assumes "cmd_alter R sel stmt st = Inr st'"
  shows "calls st' = calls st @ [Alter sel (stmt_text stmt)] \<and> mt_colors st' = mt_colors st \<and>
    map vdw (atoms st') =
      (if stmt = Assign_vdw
       then map (\<lambda>a. if R sel a then alter_vdw (elem a) (vdw a) else vdw a) (atoms st)
       else map vdw (atoms st))"
proof -
  let ?st0 = "request (Alter sel (stmt_text stmt)) st"
  from assms obtain as1 st1 where
    v: "visit (R sel) stmt True (atoms ?st0) ?st0 = Inr (as1, st1)" and r: "st' = st1\<lparr>atoms := as1\<rparr>"
    by (auto simp: cmd_alter_def Let_def bind_err_Inr)
  from visit_frame [OF v] r show ?thesis
    by (simp add: request_def)
qed

lemma mt_color_frame:
  assumes "mt_color R m sel st = Inr st'"
  shows "calls st' = calls st @ command_calls (Mt_color m) sel \<and> mt_colors st' = mt_colors st \<and>
    map vdw (atoms st') = map vdw (atoms st)"
proof -
  from assms obtain st1 st2 where
    i: "cmd_iterate R sel (Draw_color m) (st\<lparr>tmp_dict := Map.empty\<rparr>) = Inr st1" and
    a: "cmd_alter R sel (Assign_color m) st1 = Inr st2" and
    r: "st' = cmd_sync (cmd_recolor ((cmd_sync st2)\<lparr>tmp_dict := Map.empty\<rparr>))"
    by (auto simp: mt_color_def bind_err_Inr)
  from cmd_iterate_frame [OF i] cmd_alter_frame [OF a] r show ?thesis
    by (simp add: cmd_sync_def cmd_recolor_def request_def)
qed

lemma set_vdw_result:
  "set_vdw R sel st =
     Inr (st\<lparr>atoms := map (\<lambda>a. if R sel a then a\<lparr>vdw := alter_vdw (elem a) (vdw a)\<rparr> else a)
                         (atoms st),
             calls := calls st @ [Alter sel (stmt_text Assign_vdw), Sync]\<rparr>)"
  by (simp add: set_vdw_def cmd_alter_def visit_vdw request_def cmd_sync_def)

lemma mt_color_result:
  assumes "known_method m" "mt_colors st \<noteq> []"
  shows "mt_color R m sel st =
     Inr (st\<lparr>atoms := map (\<lambda>a. if R sel a
               then a\<lparr>color := the (drawn_dict (R sel) m (mt_colors st) (draws st) (drawn st)
                                      (atoms st) Map.empty (the (atom_attr m a)))\<rparr>
               else a) (atoms st),
             calls := calls st @ command_calls (Mt_color m) sel,
             tmp_dict := Map.empty,
             drawn := drawn st + length (filter (R sel) (atoms st))\<rparr>)"
proof -
  let ?st0 = "request (Iterate sel (stmt_text (Draw_color m))) (st\<lparr>tmp_dict := Map.empty\<rparr>)"
  let ?td = "drawn_dict (R sel) m (mt_colors st) (draws st) (drawn st) (atoms st) Map.empty"
  let ?st1 = "?st0\<lparr>drawn := drawn st + length (filter (R sel) (atoms st)), tmp_dict := ?td\<rparr>"
  have 0: "mt_colors ?st0 \<noteq> []" using assms(2) by (simp add: request_def)
  have v1: "visit (R sel) (Draw_color m) False (atoms ?st0) ?st0 = Inr (atoms st, ?st1)"
    using visit_draw [OF assms(1) 0, of "R sel" False "atoms ?st0"]
    by (simp add: request_def)
  have i: "cmd_iterate R sel (Draw_color m) (st\<lparr>tmp_dict := Map.empty\<rparr>) = Inr ?st1"
    using v1 by (simp add: cmd_iterate_def request_def)
  let ?st2 = "request (Alter sel (stmt_text (Assign_color m))) ?st1"
  have d: "\<forall>a \<in> set (atoms ?st2). R sel a \<longrightarrow> tmp_dict ?st2 (the (atom_attr m a)) \<noteq> None"
    using drawn_dict_defined [of _ "atoms st" "R sel" m "mt_colors st" "draws st" "drawn st" Map.empty]
    by (auto simp: request_def)
  have v2: "visit (R sel) (Assign_color m) True (atoms ?st2) ?st2 =
      Inr (map (\<lambda>a. if R sel a then a\<lparr>color := the (tmp_dict ?st2 (the (atom_attr m a)))\<rparr> else a)
             (atoms ?st2), ?st2)"
    by (rule visit_assign [OF assms(1) d])
  have a: "cmd_alter R sel (Assign_color m) ?st1 =
      Inr (?st2\<lparr>atoms := map (\<lambda>a. if R sel a then a\<lparr>color := the (?td (the (atom_attr m a)))\<rparr> else a)
             (atoms st)\<rparr>)"
    using v2 by (simp add: cmd_alter_def request_def)
  show ?thesis
    unfolding mt_color_def i bind_err.simps a
    by (simp add: request_def cmd_sync_def cmd_recolor_def)
qed

lemma mt_color_const:
  assumes "known_method m" "mt_colors st \<noteq> []"
    and "\<forall>j < length (filter (R sel) (atoms st)).
           mt_colors st ! (draws st (drawn st + j) mod length (mt_colors st)) = c"
  shows "mt_color R m sel st =
     Inr (st\<lparr>atoms := map (\<lambda>a. if R sel a then a\<lparr>color := c\<rparr> else a) (atoms st),
             calls := calls st @ command_calls (Mt_color m) sel,
             tmp_dict := Map.empty,
             drawn := drawn st + length (filter (R sel) (atoms st))\<rparr>)"
proof -
  let ?td = "drawn_dict (R sel) m (mt_colors st) (draws st) (drawn st) (atoms st) Map.empty"
  have "\<And>a. a \<in> set (atoms st) \<Longrightarrow> R sel a \<Longrightarrow> the (?td (the (atom_attr m a))) = c"
  proof -
    fix a assume a: "a \<in> set (atoms st)" "R sel a"
    from drawn_dict_defined [of a "atoms st" "R sel" m "mt_colors st" "draws st" "drawn st" Map.empty] a
    obtain c' where c': "?td (the (atom_attr m a)) = Some c'" by auto
    from drawn_dict_const [OF assms(3) _ c'] have "c' = c" by simp
    with c' show "the (?td (the (atom_attr m a))) = c" by simp
  qed
  then have "map (\<lambda>a. if R sel a then a\<lparr>color := the (?td (the (atom_attr m a)))\<rparr> else a) (atoms st)
      = map (\<lambda>a. if R sel a then a\<lparr>color := c\<rparr> else a) (atoms st)"
    by (intro map_cong) auto
  with mt_color_result [OF assms(1,2), of R sel] show ?thesis by simp
qed


lemma mt_color_forgets: "mt_color R m sel (st\<lparr>tmp_dict := td\<rparr>) = mt_color R m sel st"
  by (simp add: mt_color_def)

lemma mt_color_single_call:
  assumes "known_method method" "mt_colors st \<noteq> []"
  shows "\<exists>st'. mt_color R method selection st = Inr st' \<and>
      length (atoms st') = length (atoms st) \<and> tmp_dict st' = Map.empty \<and>
      (\<forall>i < length (atoms st). \<not> R selection (atoms st ! i) \<longrightarrow> atoms st' ! i = atoms st ! i) \<and>
      (\<forall>i < length (atoms st). R selection (atoms st ! i) \<longrightarrow>
         color (atoms st' ! i) \<in> set (mt_colors st) \<and>
         atoms st' ! i = (atoms st ! i)\<lparr>color := color (atoms st' ! i)\<rparr>) \<and>
      (\<forall>i < length (atoms st). \<forall>j < length (atoms st).
         R selection (atoms st ! i) \<and> R selection (atoms st ! j) \<and>
         atom_attr method (atoms st ! i) = atom_attr method (atoms st ! j) \<longrightarrow>
         color (atoms st' ! i) = color (atoms st' ! j))"
proof -
  let ?td = "drawn_dict (R selection) method (mt_colors st) (draws st) (drawn st) (atoms st)
      Map.empty"
  let ?f = "\<lambda>a. if R selection a then a\<lparr>color := the (?td (the (atom_attr method a)))\<rparr> else a"
  let ?st' = "st\<lparr>atoms := map ?f (atoms st),
      calls := calls st @ command_calls (Mt_color method) selection,
      tmp_dict := Map.empty,
      drawn := drawn st + length (filter (R selection) (atoms st))\<rparr>"
  have r: "mt_color R method selection st = Inr ?st'"
    by (rule mt_color_result [OF assms])
  have pal: "the (?td (the (atom_attr method a))) \<in> set (mt_colors st)"
    if "a \<in> set (atoms st)" "R selection a" for a
  proof -
    from drawn_dict_defined [of a "atoms st" "R selection" "method" "mt_colors st" "draws st"
        "drawn st" Map.empty] that
    obtain c where c: "?td (the (atom_attr method a)) = Some c" by auto
    from drawn_dict_range [OF assms(2) _ c] have "c \<in> set (mt_colors st)" by simp
    with c show ?thesis by simp
  qed
  have "length (atoms ?st') = length (atoms st)" "tmp_dict ?st' = Map.empty"
    by simp_all
  moreover have "\<forall>i < length (atoms st). \<not> R selection (atoms st ! i) \<longrightarrow>
      atoms ?st' ! i = atoms st ! i"
    by simp
  moreover have "\<forall>i < length (atoms st). R selection (atoms st ! i) \<longrightarrow>
         color (atoms ?st' ! i) \<in> set (mt_colors st) \<and>
         atoms ?st' ! i = (atoms st ! i)\<lparr>color := color (atoms ?st' ! i)\<rparr>"
    using pal by simp
  moreover have "\<forall>i < length (atoms st). \<forall>j < length (atoms st).
         R selection (atoms st ! i) \<and> R selection (atoms st ! j) \<and>
         atom_attr method (atoms st ! i) = atom_attr method (atoms st ! j) \<longrightarrow>
         color (atoms ?st' ! i) = color (atoms ?st' ! j)"
    by simp
  ultimately show ?thesis using r by blast
qed

lemma mt_color_two_calls:
  assumes k: "known_method method"
    and i: "i < length (atoms st)" "R selection (atoms st ! i)"
    and c: "c1 \<in> set (mt_colors st)" "c2 \<in> set (mt_colors st)" "c1 \<noteq> c2"
    and ins: "\<forall>a c. R selection (a\<lparr>color := c\<rparr>) = R selection a"
  shows "\<exists>d st1 st2. mt_color R method selection (st\<lparr>draws := d\<rparr>) = Inr st1 \<and>
      mt_color R method selection st1 = Inr st2 \<and>
      map color (atoms st1) \<noteq> map color (atoms st2)"
proof -
  let ?pal = "mt_colors st"
  let ?n = "length (filter (R selection) (atoms st))"
  from c obtain p1 p2 where p: "p1 < length ?pal" "?pal ! p1 = c1" "p2 < length ?pal" "?pal ! p2 = c2"
    by (auto simp: in_set_conv_nth)
  define d where "d = (\<lambda>j. if j < drawn st + ?n then p1 else p2)"
  let ?st0 = "st\<lparr>draws := d\<rparr>"
  let ?as1 = "map (\<lambda>a. if R selection a then a\<lparr>color := c1\<rparr> else a) (atoms st)"
  let ?st1 = "?st0\<lparr>atoms := ?as1,
      calls := calls ?st0 @ command_calls (Mt_color method) selection,
      tmp_dict := Map.empty, drawn := drawn ?st0 + ?n\<rparr>"
  have ne: "?pal \<noteq> []" using c by auto
  have 1: "mt_color R method selection ?st0 = Inr ?st1"
  proof -
    have h: "\<forall>j < length (filter (R selection) (atoms ?st0)).
        mt_colors ?st0 ! (draws ?st0 (drawn ?st0 + j) mod length (mt_colors ?st0)) = c1"
      using p by (simp add: d_def)
    have "mt_colors ?st0 \<noteq> []" using ne by simp
    from mt_color_const [of "method" ?st0 R selection c1, OF k this h] show ?thesis by simp
  qed
  have flt: "filter (R selection) ?as1 = map (\<lambda>a. a\<lparr>color := c1\<rparr>) (filter (R selection) (atoms st))"
    using ins by (induction "atoms st") (auto simp: filter_map o_def)
  have n1: "length (filter (R selection) (atoms ?st1)) = ?n"
    using flt by simp
  let ?as2 = "map (\<lambda>a. if R selection a then a\<lparr>color := c2\<rparr> else a) ?as1"
  let ?st2 = "?st1\<lparr>atoms := ?as2,
      calls := calls ?st1 @ command_calls (Mt_color method) selection,
      tmp_dict := Map.empty, drawn := drawn ?st1 + ?n\<rparr>"
  have 2: "mt_color R method selection ?st1 = Inr ?st2"
  proof -
    have h: "\<forall>j < length (filter (R selection) (atoms ?st1)).
        mt_colors ?st1 ! (draws ?st1 (drawn ?st1 + j) mod length (mt_colors ?st1)) = c2"
      using p by (simp add: d_def)
    have "mt_colors ?st1 \<noteq> []" using ne by simp
    from mt_color_const [of "method" ?st1 R selection c2, OF k this h] n1 show ?thesis by simp
  qed
  have "color (atoms ?st1 ! i) = c1" using i by simp
  moreover have "color (atoms ?st2 ! i) = c2" using i ins by simp
  ultimately have "map color (atoms ?st1) ! i \<noteq> map color (atoms ?st2) ! i"
    using c(3) i(1) by simp
  then have "map color (atoms ?st1) \<noteq> map color (atoms ?st2)" by metis
  with 1 2 show ?thesis by blast
qed

text \<open>
  Claim C4.  One call of \<open>mt_color\<close> with a known attribute name and a non-empty palette
  succeeds, changes nothing but the colour of the atoms of the selection, gives each of
  them a colour of the palette, and gives two atoms of the selection that have the same
  value of the attribute the same colour.  The assignment of colours to values is not
  kept: \<open>stored.tmp_dict\<close> is empty after the call, and the call does not depend on what it
  held before.  When the selection is not empty, the palette has two different colours
  and the selection does not depend on the atoms' colours, there are draws of the random
  generator for which a second call on the same selection and attribute colours the
  atoms differently from the first.
\<close>

theorem mt_color_same_value_same_color:
  assumes "known_method method" "mt_colors st \<noteq> []"
  shows "(\<exists>st'. mt_color R method selection st = Inr st' \<and>
      length (atoms st') = length (atoms st) \<and> tmp_dict st' = Map.empty \<and>
      (\<forall>i < length (atoms st). \<not> R selection (atoms st ! i) \<longrightarrow> atoms st' ! i = atoms st ! i) \<and>
      (\<forall>i < length (atoms st). R selection (atoms st ! i) \<longrightarrow>
         color (atoms st' ! i) \<in> set (mt_colors st) \<and>
         atoms st' ! i = (atoms st ! i)\<lparr>color := color (atoms st' ! i)\<rparr>) \<and>
      (\<forall>i < length (atoms st). \<forall>j < length (atoms st).
         R selection (atoms st ! i) \<and> R selection (atoms st ! j) \<and>
         atom_attr method (atoms st ! i) = atom_attr method (atoms st ! j) \<longrightarrow>
         color (atoms st' ! i) = color (atoms st' ! j))) \<and>
    (\<forall>td. mt_color R method selection (st\<lparr>tmp_dict := td\<rparr>) = mt_color R method selection st) \<and>
    ((\<exists>i < length (atoms st). R selection (atoms st ! i)) \<and>
     (\<exists>c1 \<in> set (mt_colors st). \<exists>c2 \<in> set (mt_colors st). c1 \<noteq> c2) \<and>
     (\<forall>a c. R selection (a\<lparr>color := c\<rparr>) = R selection a) \<longrightarrow>
     (\<exists>d st1 st2. mt_color R method selection (st\<lparr>draws := d\<rparr>) = Inr st1 \<and>
        mt_color R method selection st1 = Inr st2 \<and>
        map color (atoms st1) \<noteq> map color (atoms st2)))"
proof (intro conjI)
  show "\<exists>st'. mt_color R method selection st = Inr st' \<and>
      length (atoms st') = length (atoms st) \<and> tmp_dict st' = Map.empty \<and>
      (\<forall>i < length (atoms st). \<not> R selection (atoms st ! i) \<longrightarrow> atoms st' ! i = atoms st ! i) \<and>
      (\<forall>i < length (atoms st). R selection (atoms st ! i) \<longrightarrow>
         color (atoms st' ! i) \<in> set (mt_colors st) \<and>
         atoms st' ! i = (atoms st ! i)\<lparr>color := color (atoms st' ! i)\<rparr>) \<and>
      (\<forall>i < length (atoms st). \<forall>j < length (atoms st).
         R selection (atoms st ! i) \<and> R selection (atoms st ! j) \<and>
         atom_attr method (atoms st ! i) = atom_attr method (atoms st ! j) \<longrightarrow>
         color (atoms st' ! i) = color (atoms st' ! j))"
    by (rule mt_color_single_call [OF assms])
  show "\<forall>td. mt_color R method selection (st\<lparr>tmp_dict := td\<rparr>) = mt_color R method selection st"
    by (simp add: mt_color_forgets)
  show "(\<exists>i < length (atoms st). R selection (atoms st ! i)) \<and>
     (\<exists>c1 \<in> set (mt_colors st). \<exists>c2 \<in> set (mt_colors st). c1 \<noteq> c2) \<and>
     (\<forall>a c. R selection (a\<lparr>color := c\<rparr>) = R selection a) \<longrightarrow>
     (\<exists>d st1 st2. mt_color R method selection (st\<lparr>draws := d\<rparr>) = Inr st1 \<and>
        mt_color R method selection st1 = Inr st2 \<and>
        map color (atoms st1) \<noteq> map color (atoms st2))"
    using mt_color_two_calls [OF assms(1), of _ st R selection] by blast
qed

theorem mt_color_same_value_same_color_witness:
  "known_method ''chain'' \<and> mt_colors demo \<noteq> [] \<and>
   demo_R ''all'' (atoms demo ! 0) \<and> demo_R ''all'' (atoms demo ! 1) \<and>
   atom_attr ''chain'' (atoms demo ! 0) = atom_attr ''chain'' (atoms demo ! 1) \<and>
   (\<exists>st'. mt_color demo_R ''chain'' ''all'' demo = Inr st' \<and>
      color (atoms st' ! 0) = color (atoms st' ! 1) \<and> tmp_dict st' = Map.empty) \<and>
   (\<exists>d st1 st2. mt_color demo_R ''chain'' ''all'' (demo\<lparr>draws := d\<rparr>) = Inr st1 \<and>
      mt_color demo_R ''chain'' ''all'' st1 = Inr st2 \<and>
      map color (atoms st1) \<noteq> map color (atoms st2))"
proof -
  have k: "known_method ''chain''" by (simp add: known_method_def)
  have p: "mt_colors demo \<noteq> []" by (simp add: demo_def)
  have s: "demo_R ''all'' (atoms demo ! 0)" "demo_R ''all'' (atoms demo ! 1)"
    "atom_attr ''chain'' (atoms demo ! 0) = atom_attr ''chain'' (atoms demo ! 1)"
    "(0::nat) < length (atoms demo)" "(1::nat) < length (atoms demo)"
    by (simp_all add: demo_R_def demo_def demo_atoms_def atom_attr_def)
  have h: "(\<exists>i < length (atoms demo). demo_R ''all'' (atoms demo ! i)) \<and>
     (\<exists>c1 \<in> set (mt_colors demo). \<exists>c2 \<in> set (mt_colors demo). c1 \<noteq> c2) \<and>
     (\<forall>a c. demo_R ''all'' (a\<lparr>color := c\<rparr>) = demo_R ''all'' a)"
    using s(4) by (auto simp: demo_R_def demo_def)
  note t = mt_color_same_value_same_color [OF k p, of demo_R "''all''"]
  from t obtain st' where "mt_color demo_R ''chain'' ''all'' demo = Inr st'"
    "tmp_dict st' = Map.empty"
    "\<forall>i < length (atoms demo). \<forall>j < length (atoms demo).
         demo_R ''all'' (atoms demo ! i) \<and> demo_R ''all'' (atoms demo ! j) \<and>
         atom_attr ''chain'' (atoms demo ! i) = atom_attr ''chain'' (atoms demo ! j) \<longrightarrow>
         color (atoms st' ! i) = color (atoms st' ! j)"
    by blast
  with s have "\<exists>st'. mt_color demo_R ''chain'' ''all'' demo = Inr st' \<and>
      color (atoms st' ! 0) = color (atoms st' ! 1) \<and> tmp_dict st' = Map.empty"
    by blast
  moreover from t h have "\<exists>d st1 st2. mt_color demo_R ''chain'' ''all'' (demo\<lparr>draws := d\<rparr>) = Inr st1 \<and>
      mt_color demo_R ''chain'' ''all'' st1 = Inr st2 \<and>
      map color (atoms st1) \<noteq> map color (atoms st2)"
    by blast
  ultimately show ?thesis using k p s(1-3) by blast
qed

section \<open>Properties of \<open>mt_nice\<close>\<close>

lemma run_command_frame:
  assumes "run_command R c sel st = Inr st'"
  shows "calls st' = calls st @ command_calls c sel \<and> mt_colors st' = mt_colors st \<and>
    map vdw (atoms st') = map vdw (atoms st)"
proof (cases c)
  case (Mt_color m)
  with assms mt_color_frame [of R m sel st st'] show ?thesis by simp
qed (use assms in \<open>auto simp: cmd_color_def cmd_show_as_def cmd_hide_def request_def\<close>)

lemma run_commands_frame:
  "run_commands R sel rules st = Inr st' \<Longrightarrow>
   calls st' = calls st @ concat (map (\<lambda>rule. rule_calls rule sel) rules) \<and>
   mt_colors st' = mt_colors st \<and> map vdw (atoms st') = map vdw (atoms st)"
proof (induction R sel rules st rule: run_commands.induct)
  case (1 R selection st)
  then show ?case by simp
next
  case (2 R selection rest st)
  then show ?case by simp
next
  case (3 R selection c rest st)
  from "3.prems" obtain st1 where
    c: "run_command R c selection st = Inr st1" and r: "run_commands R selection rest st1 = Inr st'"
    by (auto simp: bind_err_Inr)
  from run_command_frame [OF c] "3.IH" [OF r] show ?case by simp
qed

lemma run_settings_frame:
  "run_settings R sel settings st = Inr st' \<Longrightarrow>
   calls st' = calls st @ settings_calls sel settings \<and>
   mt_colors st' = mt_colors st \<and> map vdw (atoms st') = map vdw (atoms st)"
proof (induction settings arbitrary: st)
  case Nil
  then show ?case by (simp add: settings_calls_def)
next
  case (Cons x settings)
  obtain sel_type commands where x: "x = (sel_type, commands)" by (cases x)
  from Cons.prems x obtain st1 where
    c: "run_commands R (sel @ '' and '' @ sel_type) (map snd commands) st = Inr st1" and
    r: "run_settings R sel settings st1 = Inr st'"
    by (auto simp: bind_err_Inr)
  from run_commands_frame [OF c] Cons.IH [OF r] x show ?case
    by (simp add: settings_calls_def)
qed

lemma run_command_ok:
  assumes "mt_colors st \<noteq> []" "case c of Mt_color m \<Rightarrow> known_method m | _ \<Rightarrow> True"
  shows "\<exists>st'. run_command R c sel st = Inr st'"
proof (cases c)
  case (Mt_color m)
  with assms mt_color_result [of m st R sel] show ?thesis by simp
qed simp_all

lemma run_commands_ok:
  "mt_colors st \<noteq> [] \<Longrightarrow>
   list_all (\<lambda>rule. case rule of Some (Mt_color m) \<Rightarrow> known_method m | _ \<Rightarrow> True) rules \<Longrightarrow>
   \<exists>st'. run_commands R sel rules st = Inr st'"
proof (induction R sel rules st rule: run_commands.induct)
  case (1 R selection st)
  then show ?case by simp
next
  case (2 R selection rest st)
  then show ?case by simp
next
  case (3 R selection c rest st)
  from "3.prems" have "case c of Mt_color m \<Rightarrow> known_method m | _ \<Rightarrow> True" by simp
  from run_command_ok [OF "3.prems"(1) this] obtain st1 where
    c: "run_command R c selection st = Inr st1" by blast
  from run_command_frame [OF c] "3.prems"(1) have "mt_colors st1 \<noteq> []" by simp
  from "3.IH" [of st1] this "3.prems"(2) c show ?case by simp
qed

lemma run_settings_ok:
  "mt_colors st \<noteq> [] \<Longrightarrow> methods_known settings \<Longrightarrow>
   \<exists>st'. run_settings R sel settings st = Inr st'"
proof (induction settings arbitrary: st)
  case Nil
  then show ?case by simp
next
  case (Cons x settings)
  obtain sel_type commands where x: "x = (sel_type, commands)" by (cases x)
  from Cons.prems(2) x have
    k: "list_all (\<lambda>rule. case rule of Some (Mt_color m) \<Rightarrow> known_method m | _ \<Rightarrow> True)
          (map snd commands)" and k': "methods_known settings"
    by (auto simp: methods_known_def list_all_iff)
  from run_commands_ok [OF Cons.prems(1) k] obtain st1 where
    c: "run_commands R (sel @ '' and '' @ sel_type) (map snd commands) st = Inr st1" by blast
  from run_commands_frame [OF c] Cons.prems(1) have "mt_colors st1 \<noteq> []" by simp
  from Cons.IH [OF this k'] c x show ?case by simp
qed

lemma valid_style_settings:
  "style \<in> {''clean'', ''rainbow'', ''balls''} \<Longrightarrow>
   \<exists>settings. map_of mt_nice_set style = Some settings \<and> methods_known settings \<and>
     (\<forall>selection. settings_calls selection settings =
        concat (map (\<lambda>sel_type.
            rule_calls (color_rule style sel_type) (selection @ '' and '' @ sel_type) @
            rule_calls (style_rule style sel_type) (selection @ '' and '' @ sel_type))
          (map fst mt_selectors)))"
  by (auto simp: mt_nice_set_def methods_known_def known_method_def settings_calls_def
      mt_selectors_def color_rule_def style_rule_def rule_of_def)

lemma mt_sele_create:
  "mt_sele None st =
     st\<lparr>calls := calls st @ map (\<lambda>(sel, logic). Select sel logic) mt_selectors
          @ [Sync, Deselect, Sync]\<rparr>"
  by (simp add: mt_sele_def mt_selectors_def cmd_select_def cmd_sync_def cmd_deselect_def
      request_def)

text \<open>
  Claim C3.  For a valid preset name, a run of \<open>mt_nice\<close> that returns has made these
  requests to the host, in this order and no others: the selections of the registry (the
  requests of \<open>mt_sele\<close>); the stick radius set to 0.7; the classifier run over the
  selection by \<open>alter\<close>; then, for each selector group in the order of the registry, the
  requests of the preset's colour rule, if there is one, and then those of its style
  rule, if there is one, both on \<open>selection and group\<close>; a rule that is absent makes no
  request.  Every atom of the selection has the radius the classifier gives for it, and
  the other atoms keep theirs.  With a palette that is not empty the run returns.
\<close>

theorem mt_nice_steps:
  assumes "style \<in> {''clean'', ''rainbow'', ''balls''}"
  shows "(\<forall>st'. mt_nice R style selection st = Inr st' \<longrightarrow>
      calls st' = calls st
        @ map (\<lambda>(sel, logic). Select sel logic) mt_selectors @ [Sync, Deselect, Sync]
        @ [Set_setting ''stick_radius'' 0.7, Sync]
        @ [Alter selection (stmt_text Assign_vdw), Sync, Sync]
        @ concat (map (\<lambda>sel_type.
            rule_calls (color_rule style sel_type) (selection @ '' and '' @ sel_type) @
            rule_calls (style_rule style sel_type) (selection @ '' and '' @ sel_type))
          (map fst mt_selectors)) \<and>
      map vdw (atoms st') =
        map (\<lambda>a. if R selection a then alter_vdw (elem a) (vdw a) else vdw a) (atoms st)) \<and>
    (mt_colors st \<noteq> [] \<longrightarrow> (\<exists>st'. mt_nice R style selection st = Inr st'))"
proof -
  from valid_style_settings [OF assms] obtain settings where
    s: "map_of mt_nice_set style = Some settings" and k: "methods_known settings" and
    al: "\<And>selection. settings_calls selection settings =
        concat (map (\<lambda>sel_type.
            rule_calls (color_rule style sel_type) (selection @ '' and '' @ sel_type) @
            rule_calls (style_rule style sel_type) (selection @ '' and '' @ sel_type))
          (map fst mt_selectors))"
    by blast
  let ?st0 = "cmd_sync (cmd_set ''stick_radius'' 0.7 (mt_sele None st))"
  let ?st1 = "?st0\<lparr>atoms := map (\<lambda>a. if R selection a then a\<lparr>vdw := alter_vdw (elem a) (vdw a)\<rparr>
                                  else a) (atoms ?st0),
                   calls := calls ?st0 @ [Alter selection (stmt_text Assign_vdw), Sync]\<rparr>"
  have n: "mt_nice R style selection st = run_settings R selection settings (cmd_sync ?st1)"
    using assms s by (auto simp: mt_nice_def set_vdw_result)
  have c1: "calls (cmd_sync ?st1) = calls st
        @ map (\<lambda>(sel, logic). Select sel logic) mt_selectors @ [Sync, Deselect, Sync]
        @ [Set_setting ''stick_radius'' 0.7, Sync]
        @ [Alter selection (stmt_text Assign_vdw), Sync, Sync]"
    by (simp add: mt_sele_create cmd_sync_def cmd_set_def request_def)
  have v1: "map vdw (atoms (cmd_sync ?st1)) =
      map (\<lambda>a. if R selection a then alter_vdw (elem a) (vdw a) else vdw a) (atoms st)"
    by (simp add: mt_sele_create cmd_sync_def cmd_set_def request_def o_def if_distrib cong: if_cong)
  have m1: "mt_colors (cmd_sync ?st1) = mt_colors st"
    by (simp add: mt_sele_create cmd_sync_def cmd_set_def request_def)
  have "calls st' = calls (cmd_sync ?st1) @ settings_calls selection settings \<and>
      map vdw (atoms st') = map vdw (atoms (cmd_sync ?st1))"
    if "mt_nice R style selection st = Inr st'" for st'
    using run_settings_frame [of R selection settings "cmd_sync ?st1" st'] that n by simp
  then have A: "\<forall>st'. mt_nice R style selection st = Inr st' \<longrightarrow>
      calls st' = calls st
        @ map (\<lambda>(sel, logic). Select sel logic) mt_selectors @ [Sync, Deselect, Sync]
        @ [Set_setting ''stick_radius'' 0.7, Sync]
        @ [Alter selection (stmt_text Assign_vdw), Sync, Sync]
        @ concat (map (\<lambda>sel_type.
            rule_calls (color_rule style sel_type) (selection @ '' and '' @ sel_type) @
            rule_calls (style_rule style sel_type) (selection @ '' and '' @ sel_type))
          (map fst mt_selectors)) \<and>
      map vdw (atoms st') =
        map (\<lambda>a. if R selection a then alter_vdw (elem a) (vdw a) else vdw a) (atoms st)"
    unfolding c1 v1 al by simp
  have B: "mt_colors st \<noteq> [] \<longrightarrow> (\<exists>st'. mt_nice R style selection st = Inr st')"
    using run_settings_ok [of "cmd_sync ?st1" settings R selection] k m1 n by simp
  from A B show ?thesis by blast
qed

theorem mt_nice_steps_witness:
  "''clean'' \<in> {''clean'', ''rainbow'', ''balls''} \<and> mt_colors demo \<noteq> [] \<and>
   (\<exists>st'. mt_nice demo_R ''clean'' ''all'' demo = Inr st' \<and>
      calls st' = [
        Select ''prot'' ''polymer.protein'',
        Select ''BB'' ''polymer.protein and name BB'',
        Select ''SC'' ''polymer.protein and name SC*'',
        Select ''solv'' ''resn W or resn WN or resn ION'',
        Select ''ions'' ''resn ION'',
        Select ''lip'' ''organic and not ions'',
        Select ''nucl'' ''polymer.nucleic'',
        Sync, Deselect, Sync,
        Set_setting ''stick_radius'' 0.7, Sync,
        Alter ''all'' ''vdw=stored.alter_vdw(elem, vdw)'', Sync, Sync,
        Iterate ''all and BB'' ''stored.tmp_dict[chain] = stored.r_choice(stored.mt_colors)'',
        Alter ''all and BB'' ''color = stored.tmp_dict[chain]'', Sync, Recolor, Sync,
        Show_as ''sticks'' ''all and BB'',
        Hide ''everything'' ''all and SC'',
        Hide ''everything'' ''all and solv'',
        Hide ''everything'' ''all and ions'',
        Iterate ''all and lip'' ''stored.tmp_dict[resn] = stored.r_choice(stored.mt_colors)'',
        Alter ''all and lip'' ''color = stored.tmp_dict[resn]'', Sync, Recolor, Sync,
        Show_as ''sticks'' ''all and lip'',
        Iterate ''all and nucl'' ''stored.tmp_dict[resi] = stored.r_choice(stored.mt_colors)'',
        Alter ''all and nucl'' ''color = stored.tmp_dict[resi]'', Sync, Recolor, Sync,
        Show_as ''sticks'' ''all and nucl''] \<and>
      map vdw (atoms st') = [2.35, 2.00, 1.65, 1.5])"
proof -
  have v: "''clean'' \<in> {''clean'', ''rainbow'', ''balls''}" by simp
  have p: "mt_colors demo \<noteq> []" by (simp add: demo_def)
  note t = mt_nice_steps [OF v, of demo_R "''all''" demo]
  from t p obtain st' where r: "mt_nice demo_R ''clean'' ''all'' demo = Inr st'" by blast
  have e: "map (\<lambda>a. if demo_R ''all'' a then alter_vdw (elem a) (vdw a) else vdw a) (atoms demo)
      = [2.35, 2.00, 1.65, 1.5]"
    by (simp add: demo_def demo_atoms_def demo_R_def alter_vdw_def vdw_patterns_def
        re_match_regular re_match_small re_match_tiny py_word_def py_digit_def)
  from t r have "calls st' = calls demo
        @ map (\<lambda>(sel, logic). Select sel logic) mt_selectors @ [Sync, Deselect, Sync]
        @ [Set_setting ''stick_radius'' 0.7, Sync]
        @ [Alter ''all'' (stmt_text Assign_vdw), Sync, Sync]
        @ concat (map (\<lambda>sel_type.
            rule_calls (color_rule ''clean'' sel_type) (''all'' @ '' and '' @ sel_type) @
            rule_calls (style_rule ''clean'' sel_type) (''all'' @ '' and '' @ sel_type))
          (map fst mt_selectors))"
    and "map vdw (atoms st') =
        map (\<lambda>a. if demo_R ''all'' a then alter_vdw (elem a) (vdw a) else vdw a) (atoms demo)"
    by blast+
  then show ?thesis using v p r unfolding e
    by (simp add: demo_def mt_selectors_def color_rule_def style_rule_def rule_of_def
        mt_nice_set_def)
qed

text \<open>
  Claim C2.  For a preset name other than \<open>clean\<close>, \<open>rainbow\<close> and \<open>balls\<close>, \<open>mt_nice\<close>
  prints an error message and returns; the session is otherwise unchanged: no request is
  made to the host (no selection, no setting, no \<open>alter\<close>, no colour or representation
  command), and the atoms are as they were.
\<close>

theorem mt_nice_bad_preset:
  assumes "style \<notin> {''clean'', ''rainbow'', ''balls''}"
  shows "\<exists>st'. mt_nice R style selection st = Inr st' \<and>
     st' = st\<lparr>printed := printed st @
       [''Error: '' @ style @ '' is not a valid option. See help mt_nice'']\<rparr> \<and>
     calls st' = calls st \<and> atoms st' = atoms st \<and> color_table st' = color_table st \<and>
     mt_colors st' = mt_colors st \<and> tmp_dict st' = tmp_dict st \<and> drawn st' = drawn st"
  using assms by (simp add: mt_nice_def py_print_def)

theorem mt_nice_bad_preset_witness:
  "''bogus'' \<notin> {''clean'', ''rainbow'', ''balls''} \<and>
   (\<exists>st'. mt_nice demo_R ''bogus'' ''all'' demo = Inr st' \<and>
      printed st' = [''Error: bogus is not a valid option. See help mt_nice''] \<and>
      calls st' = [] \<and> atoms st' = demo_atoms)"
proof -
  have v: "''bogus'' \<notin> {''clean'', ''rainbow'', ''balls''}" by simp
  from mt_nice_bad_preset [OF v, of demo_R "''all''" demo] v show ?thesis
    by (auto simp: demo_def)
qed

section \<open>Properties of the selector registry\<close>

lemma render_logic: "map (\<lambda>(sel, logic). (sel, render logic)) selector_logic = mt_selectors"
  by (simp add: selector_logic_def mt_selectors_def)

lemma select_all_registry:
  "select_all ic selector_logic env0 = Some (env0(
     ''prot'' \<mapsto> polymer_protein,
     ''BB'' \<mapsto> (\<lambda>a. polymer_protein a \<and> match_form ic (name a) = match_form ic ''BB''),
     ''SC'' \<mapsto> (\<lambda>a. polymer_protein a \<and> prefix (match_form ic ''SC'') (match_form ic (name a))),
     ''solv'' \<mapsto> (\<lambda>a. (match_form ic (resn a) = match_form ic ''W'' \<or>
                       match_form ic (resn a) = match_form ic ''WN'') \<or>
                      match_form ic (resn a) = match_form ic ''ION''),
     ''ions'' \<mapsto> (\<lambda>a. match_form ic (resn a) = match_form ic ''ION''),
     ''lip'' \<mapsto> (\<lambda>a. organic a \<and> \<not> match_form ic (resn a) = match_form ic ''ION''),
     ''nucl'' \<mapsto> polymer_nucleic))"
  by (simp add: selector_logic_def wildcard_def)

lemma lower_char_examples:
  "lower_char (CHR ''B'') = CHR ''b''" "lower_char (CHR ''b'') = CHR ''b''"
  "lower_char (CHR ''S'') = CHR ''s''" "lower_char (CHR ''s'') = CHR ''s''"
  "lower_char (CHR ''C'') = CHR ''c''" "lower_char (CHR ''c'') = CHR ''c''"
  "lower_char (CHR ''I'') = CHR ''i''" "lower_char (CHR ''i'') = CHR ''i''"
  "lower_char (CHR ''O'') = CHR ''o''" "lower_char (CHR ''o'') = CHR ''o''"
  "lower_char (CHR ''N'') = CHR ''n''" "lower_char (CHR ''n'') = CHR ''n''"
  "lower_char (CHR ''W'') = CHR ''w''" "lower_char (CHR ''1'') = CHR ''1''"
  by code_simp+

text \<open>
  With \<open>ignore_case\<close> on, a protein atom named \<open>bb\<close> is in \<open>BB\<close>, one named \<open>sc1\<close> is in
  \<open>SC\<close>, and an atom of residue \<open>ion\<close> is in \<open>solv\<close> and in \<open>ions\<close>; with the setting off
  none of them is.
\<close>

lemma selector_case_examples:
  "group_selects True ''BB'' (demo_bb1\<lparr>name := ''bb''\<rparr>) = Some True"
  "group_selects True ''SC'' (demo_bb1\<lparr>name := ''sc1''\<rparr>) = Some True"
  "group_selects True ''solv'' (demo_bb1\<lparr>resn := ''ion''\<rparr>) = Some True"
  "group_selects True ''ions'' (demo_bb1\<lparr>resn := ''ion''\<rparr>) = Some True"
  "group_selects False ''BB'' (demo_bb1\<lparr>name := ''bb''\<rparr>) = Some False"
  "group_selects False ''SC'' (demo_bb1\<lparr>name := ''sc1''\<rparr>) = Some False"
  "group_selects False ''ions'' (demo_bb1\<lparr>resn := ''ion''\<rparr>) = Some False"
  by (simp_all add: group_selects_def select_all_registry demo_bb1_def match_form_def
      lower_char_examples)

text \<open>
  Claim C5, amended.  The registry has exactly the seven names \<open>prot\<close>, \<open>BB\<close>, \<open>SC\<close>,
  \<open>solv\<close>, \<open>ions\<close>, \<open>lip\<close>, \<open>nucl\<close>, in this order, and its seven strings are the
  expressions of \<open>selector_logic\<close>.  As the host model reads them, whatever the setting
  \<open>ignore_case\<close> is: \<open>prot\<close> selects the atoms of protein polymers; \<open>BB\<close> selects those
  of them whose whole name matches \<open>BB\<close>, and \<open>SC\<close> those of them whose name starts with
  \<open>SC\<close>; \<open>solv\<close> selects the residue names \<open>W\<close>, \<open>WN\<close> and \<open>ION\<close>, and \<open>ions\<close> the
  residue name \<open>ION\<close>; \<open>lip\<close> selects the organic atoms that \<open>ions\<close> does not select;
  \<open>nucl\<close> selects the atoms of nucleic-acid polymers.  Names are compared in the form in
  which the host compares them.
\<close>

theorem selector_registry:
  "map fst mt_selectors = [''prot'', ''BB'', ''SC'', ''solv'', ''ions'', ''lip'', ''nucl''] \<and>
   map (\<lambda>(sel, logic). (sel, render logic)) selector_logic = mt_selectors \<and>
   group_selects ic ''prot'' a = Some (polymer_protein a) \<and>
   group_selects ic ''BB'' a =
     Some (polymer_protein a \<and> match_form ic (name a) = match_form ic ''BB'') \<and>
   group_selects ic ''SC'' a =
     Some (polymer_protein a \<and> prefix (match_form ic ''SC'') (match_form ic (name a))) \<and>
   group_selects ic ''solv'' a =
     Some (match_form ic (resn a) \<in> {match_form ic ''W'', match_form ic ''WN'', match_form ic ''ION''}) \<and>
   group_selects ic ''ions'' a = Some (match_form ic (resn a) = match_form ic ''ION'') \<and>
   group_selects ic ''lip'' a =
     Some (organic a \<and> match_form ic (resn a) \<noteq> match_form ic ''ION'') \<and>
   group_selects ic ''nucl'' a = Some (polymer_nucleic a)"
  using render_logic
  by (auto simp: group_selects_def select_all_registry mt_selectors_def)

text \<open>
  \<open>BB\<close> does not select by prefix: a protein atom named \<open>BB1\<close> has a name that starts
  with \<open>BB\<close>, in either form of comparison, and is not selected, whether \<open>ignore_case\<close>
  is on or off.
\<close>

theorem selector_BB_not_by_prefix:
  "polymer_protein demo_bb1 \<and> name demo_bb1 = ''BB1'' \<and> prefix ''BB'' (name demo_bb1) \<and>
   prefix (match_form True ''BB'') (match_form True (name demo_bb1)) \<and>
   group_selects True ''BB'' demo_bb1 = Some False \<and>
   group_selects False ''BB'' demo_bb1 = Some False"
  by (simp add: group_selects_def select_all_registry demo_bb1_def match_form_def
      lower_char_examples)

section \<open>Properties of \<open>nice_settings\<close>\<close>

lemma set_all_simps [simp]:
  "set_all [] d = d"
  "set_all ((i, rgb) # ps) d = set_all ps (dict_set d (col_name i) rgb)"
  by (simp_all add: set_all_def)

lemma register_colors_eq:
  "register_colors ps d st =
     (set_all ps d,
      st\<lparr>color_table := set_all ps (color_table st),
         calls := calls st @ map (\<lambda>(i, rgb). Set_color (col_name i) rgb) ps\<rparr>)"
  by (induction ps arbitrary: d st) (auto simp: cmd_set_color_def request_def)

lemma map_of_dict_set: "map_of (dict_set d k v) = (map_of d)(k \<mapsto> v)"
  by (induction d) (auto simp: fun_eq_iff)

lemma dict_set_same: "map_of d k = Some v \<Longrightarrow> dict_set d k v = d"
  by (induction d) (auto split: if_splits)

lemma keys_dict_set:
  "map fst (dict_set d k v) = (if k \<in> set (map fst d) then map fst d else map fst d @ [k])"
  by (induction d) force+

lemma map_of_set_all_other:
  "k \<notin> set (map (\<lambda>(i, rgb). col_name i) ps) \<Longrightarrow> map_of (set_all ps d) k = map_of d k"
  by (induction ps arbitrary: d) (auto simp: map_of_dict_set)

lemma map_of_set_all:
  "distinct (map (\<lambda>(i, rgb). col_name i) ps) \<Longrightarrow> (i, rgb) \<in> set ps \<Longrightarrow>
   map_of (set_all ps d) (col_name i) = Some rgb"
proof (induction ps arbitrary: d)
  case Nil
  then show ?case by simp
next
  case (Cons p ps)
  obtain j c where p: "p = (j, c)" by (cases p)
  show ?case
  proof (cases "(i, rgb) = p")
    case True
    with Cons.prems p show ?thesis
      by (simp add: map_of_set_all_other map_of_dict_set)
  next
    case False
    with Cons p show ?thesis by auto
  qed
qed

lemma set_all_fixed:
  "(\<forall>(i, rgb) \<in> set ps. map_of d (col_name i) = Some rgb) \<Longrightarrow> set_all ps d = d"
  by (induction ps) (auto simp: dict_set_same)

lemma set_all_idem:
  assumes "distinct (map (\<lambda>(i, rgb). col_name i) ps)"
  shows "set_all ps (set_all ps d) = set_all ps d"
  using map_of_set_all [OF assms] by (intro set_all_fixed) auto

lemma keys_set_all:
  "distinct (map fst d @ map (\<lambda>(i, rgb). col_name i) ps) \<Longrightarrow>
   map fst (set_all ps d) = map fst d @ map (\<lambda>(i, rgb). col_name i) ps"
proof (induction ps arbitrary: d)
  case Nil
  then show ?case by simp
next
  case (Cons p ps)
  obtain j c where p: "p = (j, c)" by (cases p)
  from Cons.prems p have k: "map fst (dict_set d (col_name j) c) = map fst d @ [col_name j]"
    by (auto simp: keys_dict_set)
  from Cons.prems p have "distinct (map fst (dict_set d (col_name j) c)
      @ map (\<lambda>(i, rgb). col_name i) ps)"
    unfolding k by auto
  from Cons.IH [OF this] k p show ?case by simp
qed

lemma index_of_mem:
  "x \<in> set xs \<Longrightarrow> 0 \<le> index_of xs x \<and> nat (index_of xs x) < length xs \<and>
   xs ! nat (index_of xs x) = x"
  by (induction xs) (auto simp: Let_def nat_add_distrib)

lemma index_of_inj:
  "x \<in> set xs \<Longrightarrow> y \<in> set xs \<Longrightarrow> index_of xs x = index_of xs y \<Longrightarrow> x = y"
  using index_of_mem by metis

lemma enumerate_map:
  "map (\<lambda>(i, x). f i x) (enumerate 0 xs) = map (\<lambda>i. f i (xs ! i)) [0..<length xs]"
  by (rule nth_equalityI) (auto simp: nth_enumerate_eq)

lemma colors_literal:
  "length colors = 26" "hd colors = (240, 163, 255)" "last colors = (255, 80, 5)"
  by (simp_all add: colors_def)

lemma col_names_distinct: "distinct (map (\<lambda>(i, rgb). col_name i) (enumerate 0 colors))"
  by code_simp

lemma col_names: "map (\<lambda>(i, rgb). col_name i) (enumerate 0 colors) = map col_name [0..<26]"
  using enumerate_map [of "\<lambda>i rgb. col_name i" colors] by (simp add: colors_literal)

lemma nice_settings_eq:
  "nice_settings st =
     st\<lparr>color_table := set_all (enumerate 0 colors) (color_table st),
        calls := calls st @ map (\<lambda>i. Set_color (col_name i) (colors ! i)) [0..<26],
        mt_colors := map (index_of (map fst (set_all (enumerate 0 colors) (color_table st))))
                       (map col_name [0..<26])\<rparr>"
proof -
  have k: "map fst (set_all (enumerate 0 colors) []) = map col_name [0..<26]"
    using keys_set_all [of "[]" "enumerate 0 colors"] col_names_distinct col_names by simp
  have c: "map (\<lambda>(i, rgb). Set_color (col_name i) rgb) (enumerate 0 colors)
      = map (\<lambda>i. Set_color (col_name i) (colors ! i)) [0..<26]"
    using enumerate_map [of "\<lambda>i rgb. Set_color (col_name i) rgb" colors]
    by (simp add: colors_literal)
  show ?thesis
    by (simp add: nice_settings_def register_colors_eq k c cmd_get_color_index_def [abs_def]
        del: map_map)
qed

text \<open>
  Claim C6.  \<open>nice_settings\<close> registers exactly the 26 triples of the literal list with the
  host, under the names \<open>mt_color_0\<close> to \<open>mt_color_25\<close> and in the order of the list,
  which starts with (240, 163, 255) and ends with (255, 80, 5); \<open>stored.mt_colors\<close> holds
  the 26 handles of these names, in that order, and they differ from one another.  A
  second run registers the same names with the same values, leaves the colour table as it
  is and stores the same handles.
\<close>

theorem nice_settings_palette:
  "length colors = 26 \<and> hd colors = (240, 163, 255) \<and> last colors = (255, 80, 5) \<and>
   calls (nice_settings st) =
     calls st @ map (\<lambda>i. Set_color (col_name i) (colors ! i)) [0..<26] \<and>
   mt_colors (nice_settings st) =
     map (\<lambda>i. cmd_get_color_index (nice_settings st) (col_name i)) [0..<26] \<and>
   (\<forall>i < 26. map_of (color_table (nice_settings st)) (col_name i) = Some (colors ! i)) \<and>
   distinct (mt_colors (nice_settings st)) \<and>
   color_table (nice_settings (nice_settings st)) = color_table (nice_settings st) \<and>
   mt_colors (nice_settings (nice_settings st)) = mt_colors (nice_settings st)"
proof -
  let ?ps = "enumerate 0 colors"
  let ?t = "set_all ?ps (color_table st)"
  have t: "color_table (nice_settings st) = ?t"
    by (simp add: nice_settings_eq)
  have m: "mt_colors (nice_settings st) = map (index_of (map fst ?t)) (map col_name [0..<26])"
    by (simp add: nice_settings_eq)
  have val: "map_of ?t (col_name i) = Some (colors ! i)" if "i < 26" for i
  proof -
    from that have "(i, colors ! i) \<in> set ?ps"
      by (simp add: in_set_enumerate_eq colors_literal)
    from map_of_set_all [OF col_names_distinct this] show ?thesis .
  qed
  have mem: "col_name i \<in> set (map fst ?t)" if "i < 26" for i
    using val [OF that] by (metis map_of_eq_None_iff option.distinct(1) set_map)
  have d: "distinct (map col_name [0..<26])"
    using col_names_distinct col_names by simp
  have "inj_on (index_of (map fst ?t)) (set (map col_name [0..<26]))"
  proof (rule inj_onI)
    fix x y
    assume x: "x \<in> set (map col_name [0..<26])" and y: "y \<in> set (map col_name [0..<26])"
      and e: "index_of (map fst ?t) x = index_of (map fst ?t) y"
    from x y mem have "x \<in> set (map fst ?t)" "y \<in> set (map fst ?t)" by auto
    from index_of_inj [OF this e] show "x = y" .
  qed
  with d have dist: "distinct (mt_colors (nice_settings st))"
    unfolding m by (simp add: distinct_map comp_inj_on)
  have idem: "set_all ?ps ?t = ?t"
    by (rule set_all_idem [OF col_names_distinct])
  have "calls (nice_settings st) =
      calls st @ map (\<lambda>i. Set_color (col_name i) (colors ! i)) [0..<26]"
    by (simp add: nice_settings_eq)
  moreover have "mt_colors (nice_settings st) =
      map (\<lambda>i. cmd_get_color_index (nice_settings st) (col_name i)) [0..<26]"
    unfolding m by (simp add: cmd_get_color_index_def t o_def)
  moreover have "\<forall>i < 26. map_of (color_table (nice_settings st)) (col_name i) = Some (colors ! i)"
    using val t by simp
  moreover have "color_table (nice_settings (nice_settings st)) = color_table (nice_settings st)"
    using idem by (simp add: nice_settings_eq [of "nice_settings st"] t)
  moreover have "mt_colors (nice_settings (nice_settings st)) = mt_colors (nice_settings st)"
    using idem by (simp add: nice_settings_eq [of "nice_settings st"] t m)
  ultimately show ?thesis using dist colors_literal by blast
qed

theorem nice_settings_palette_witness:
  "(0::nat) < 26 \<and>
   map_of (color_table (nice_settings demo)) ''mt_color_0'' = Some (240, 163, 255) \<and>
   length (mt_colors (nice_settings demo)) = 26 \<and>
   mt_colors (nice_settings (nice_settings demo)) = mt_colors (nice_settings demo)"
proof -
  note t = nice_settings_palette [of demo]
  from t have "\<forall>i < 26. map_of (color_table (nice_settings demo)) (col_name i) = Some (colors ! i)"
    by blast
  then have "map_of (color_table (nice_settings demo)) (col_name 0) = Some (colors ! 0)"
    by simp
  moreover have "col_name 0 = ''mt_color_0''" "colors ! 0 = (240, 163, 255)"
    by (simp_all add: col_name_def show_nat.simps digit_char_def colors_def)
  moreover from t have "length (mt_colors (nice_settings demo)) = 26"
    by simp
  ultimately show ?thesis using t by simp
qed

section \<open>Properties of \<open>store_settings\<close>\<close>

lemma unpack2_wrong_length: "length key \<noteq> 2 \<Longrightarrow> unpack2 key = None"
  by (cases key rule: unpack2.cases) auto

lemma dict_set_keys_cong:
  "map fst d = map fst d' \<Longrightarrow> map fst (dict_set d k v) = map fst (dict_set d' k v')"
  by (simp add: keys_dict_set)

lemma collect_settings_keys_cong:
  "map fst d = map fst d' \<Longrightarrow>
   map fst (collect_settings names g d) = map fst (collect_settings names g' d')"
proof (induction names arbitrary: d d')
  case Nil
  then show ?case by simp
next
  case (Cons n names)
  from dict_set_keys_cong [OF Cons.prems, of n "g n" "g' n"] show ?case
    by (simp add: Cons.IH)
qed

lemma collect_settings_first_key:
  "\<exists>rest. map fst (collect_settings names g ((k, v) # d)) = k # rest"
  by (induction names arbitrary: v d) auto

lemma store_settings_ignores_values:
  "store_settings filename name_list get_setting' fs =
   store_settings filename name_list get_setting fs"
  using collect_settings_keys_cong [of "[]" "[]" name_list get_setting' get_setting]
  by (simp add: store_settings_def)

text \<open>
  Claim C8.  For a file name whose extension is not \<open>.py\<close>, \<open>store_settings\<close> raises
  TypeError with a message that names the file, and the file system is as it was: no file
  was opened or made.
\<close>

theorem store_settings_bad_extension:
  assumes "snd (splitext filename) \<noteq> ''.py''"
  shows "store_settings filename name_list get_setting fs =
     (fs, Raised (TypeError (filename @ '' must be a .py file'')))"
  using assms by (simp add: store_settings_def)

theorem store_settings_bad_extension_witness:
  "snd (splitext ''out/settings.txt'') \<noteq> ''.py'' \<and>
   store_settings ''out/settings.txt'' [''fog''] (\<lambda>s. PInt 1) Map.empty =
     (Map.empty, Raised (TypeError ''out/settings.txt must be a .py file'')) \<and>
   snd (splitext ''.py'') \<noteq> ''.py'' \<and>
   fst (store_settings ''.py'' [''fog''] (\<lambda>s. PInt 1) [''.py'' \<mapsto> ''kept'']) ''.py''
     = Some ''kept''"
proof -
  have a: "snd (splitext ''out/settings.txt'') \<noteq> ''.py''"
    by code_simp
  have b: "snd (splitext ''.py'') \<noteq> ''.py''"
    by code_simp
  from store_settings_bad_extension [OF a, of "[''fog'']" "\<lambda>s. PInt 1" Map.empty]
    store_settings_bad_extension [OF b, of "[''fog'']" "\<lambda>s. PInt 1" "[''.py'' \<mapsto> ''kept'']"]
    a b
  show ?thesis by simp
qed

text \<open>
  Claim C9.  The write loop iterates the keys of the settings dict and unpacks each key
  into two names, so the values of the settings play no part in what \<open>store_settings\<close>
  does.  With a \<open>.py\<close> file name and settings whose first name does not have exactly two
  characters, \<open>store_settings\<close> raises the ValueError of the unpacking, and leaves a file
  that holds the header comment and no setting line.
\<close>

theorem store_settings_unpack_error:
  "(\<forall>get_setting'. store_settings filename name_list get_setting' fs =
      store_settings filename name_list get_setting fs) \<and>
   (snd (splitext filename) = ''.py'' \<and> name_list \<noteq> [] \<and> length (hd name_list) \<noteq> 2 \<longrightarrow>
    store_settings filename name_list get_setting fs =
      (fs(filename \<mapsto> ''# pymol settings file autogenerated by stir'' @ newline @ newline),
       Raised (ValueError_unpack (hd name_list))))"
proof (intro conjI allI impI)
  fix get_setting'
  show "store_settings filename name_list get_setting' fs =
      store_settings filename name_list get_setting fs"
    by (rule store_settings_ignores_values)
next
  assume a: "snd (splitext filename) = ''.py'' \<and> name_list \<noteq> [] \<and> length (hd name_list) \<noteq> 2"
  then obtain key names where n: "name_list = key # names" and l: "length key \<noteq> 2"
    by (cases name_list) auto
  from collect_settings_first_key [of names get_setting key "get_setting key" "[]"]
  obtain rest where
    k: "map fst (collect_settings names get_setting [(key, get_setting key)]) = key # rest"
    by auto
  from a n l k show "store_settings filename name_list get_setting fs =
      (fs(filename \<mapsto> ''# pymol settings file autogenerated by stir'' @ newline @ newline),
       Raised (ValueError_unpack (hd name_list)))"
    by (simp add: store_settings_def unpack2_wrong_length header_def)
qed

theorem store_settings_unpack_error_witness:
  "snd (splitext ''/tmp/pymol_settings.py'') = ''.py'' \<and> [''fog'', ''ab''] \<noteq> [] \<and>
   length (hd [''fog'', ''ab'']) \<noteq> 2 \<and>
   store_settings ''/tmp/pymol_settings.py'' [''fog'', ''ab''] (\<lambda>s. PInt 1) Map.empty =
     ([''/tmp/pymol_settings.py'' \<mapsto>
         ''# pymol settings file autogenerated by stir'' @ newline @ newline],
      Raised (ValueError_unpack ''fog''))"
proof -
  have a: "snd (splitext ''/tmp/pymol_settings.py'') = ''.py''"
    by code_simp
  from store_settings_unpack_error
    [of "''/tmp/pymol_settings.py''" "[''fog'', ''ab'']" Map.empty "\<lambda>s. PInt 1"] a
  show ?thesis by simp
qed






end
